theory Spec2Isabelle
  imports Complex_Main "HOL-Library.List_Lexorder" "HOL-Library.Log_Nat" "HOL-Library.AList"
    "HOL-Library.Multiset"
begin

section \<open>Python values\<close>

subsection \<open>Strings\<close>

text \<open>
  A Python \<^verbatim>\<open>str\<close> is a sequence of Unicode code points, so a string is a list of
  natural numbers (the fraction glyphs of the parser lie beyond one byte). Strings compare
  lexicographically by code point, which is the order of \<open>HOL-Library.List_Lexorder\<close>.
  \<open>asc\<close> writes an ASCII literal.
\<close>

type_synonym pychar = nat
type_synonym pystr = "pychar list"

definition asc :: "string \<Rightarrow> pystr" where
  "asc s = map of_char s"

text \<open>The exceptions the modelled code can raise.\<close>

datatype error = ValueError | ZeroDivisionError | OverflowError

text \<open>
  What the code takes from the Python runtime and its Unicode database, beyond ASCII:
  \<^item> \<open>decimal_ext c\<close>: the value of a non-ASCII code point that is a decimal digit
    (\<^verbatim>\<open>\d\<close> of a \<^verbatim>\<open>str\<close> pattern and \<^verbatim>\<open>int()\<close> accept every Unicode decimal digit);
  \<^item> \<open>lower_ext s\<close>: \<^verbatim>\<open>s.lower()\<close> for a string that is not pure ASCII (full Unicode
    lowercasing is context dependent);
  \<^item> \<open>max_str_digits\<close>: \<^verbatim>\<open>sys.get_int_max_str_digits()\<close>, 0 for no limit.
  Every theorem below holds for every runtime.
\<close>

record runtime =
  decimal_ext :: "pychar \<Rightarrow> nat option"
  lower_ext :: "pystr \<Rightarrow> pystr"
  max_str_digits :: nat

definition decimal :: "runtime \<Rightarrow> pychar \<Rightarrow> nat option" where
  "decimal rt c =
     (if c < 128 then (if 48 \<le> c \<and> c \<le> 57 then Some (c - 48) else None)
      else decimal_ext rt c)"

definition isdecimal :: "runtime \<Rightarrow> pychar \<Rightarrow> bool" where
  "isdecimal rt c = (decimal rt c \<noteq> None)"

text \<open>
  Whitespace as \<^verbatim>\<open>str.isspace\<close>, \<^verbatim>\<open>str.strip()\<close>, \<^verbatim>\<open>str.split()\<close> and \<^verbatim>\<open>\s\<close> see it.
\<close>

definition isspace :: "pychar \<Rightarrow> bool" where
  "isspace c = ((9 \<le> c \<and> c \<le> 13) \<or> (28 \<le> c \<and> c \<le> 32) \<or> c = 133 \<or> c = 160
     \<or> c = 5760 \<or> (8192 \<le> c \<and> c \<le> 8202) \<or> c = 8232 \<or> c = 8233 \<or> c = 8239
     \<or> c = 8287 \<or> c = 12288)"

definition lstrip_by :: "(pychar \<Rightarrow> bool) \<Rightarrow> pystr \<Rightarrow> pystr" where
  "lstrip_by P s = dropWhile P s"

definition rstrip_by :: "(pychar \<Rightarrow> bool) \<Rightarrow> pystr \<Rightarrow> pystr" where
  "rstrip_by P s = rev (dropWhile P (rev s))"

definition strip_by :: "(pychar \<Rightarrow> bool) \<Rightarrow> pystr \<Rightarrow> pystr" where
  "strip_by P s = rstrip_by P (lstrip_by P s)"

text \<open>\<^verbatim>\<open>s.strip()\<close>, and \<^verbatim>\<open>s.strip(chars)\<close>, \<^verbatim>\<open>s.rstrip(chars)\<close> for a set of characters.\<close>

definition strip :: "pystr \<Rightarrow> pystr" where
  "strip s = strip_by isspace s"

definition strip_chars :: "pystr \<Rightarrow> pystr \<Rightarrow> pystr" where
  "strip_chars chars s = strip_by (\<lambda>c. c \<in> set chars) s"

definition rstrip_chars :: "pystr \<Rightarrow> pystr \<Rightarrow> pystr" where
  "rstrip_chars chars s = rstrip_by (\<lambda>c. c \<in> set chars) s"

text \<open>\<^verbatim>\<open>s.split()\<close>: the maximal runs of non-whitespace; \<open>cur\<close> is the run being read.\<close>

fun split_acc :: "pystr \<Rightarrow> pystr \<Rightarrow> pystr list" where
  "split_acc cur [] = (if cur = [] then [] else [cur])"
| "split_acc cur (c # cs) =
     (if isspace c then (if cur = [] then split_acc [] cs else cur # split_acc [] cs)
      else split_acc (cur @ [c]) cs)"

definition split :: "pystr \<Rightarrow> pystr list" where
  "split s = split_acc [] s"

text \<open>\<^verbatim>\<open>s.replace(old, new)\<close> for a pattern \<open>old\<close> of one character.\<close>

definition replace :: "pychar \<Rightarrow> pystr \<Rightarrow> pystr \<Rightarrow> pystr" where
  "replace old new s = concat (map (\<lambda>c. if c = old then new else [c]) s)"

text \<open>
  \<^verbatim>\<open>s.lower()\<close>: on a pure ASCII string the letters A to Z move to a to z; any other string
  is lowered by the runtime.
\<close>

definition ascii_lower :: "pychar \<Rightarrow> pychar" where
  "ascii_lower c = (if 65 \<le> c \<and> c \<le> 90 then c + 32 else c)"

definition lower :: "runtime \<Rightarrow> pystr \<Rightarrow> pystr" where
  "lower rt s = (if \<forall>c \<in> set s. c < 128 then map ascii_lower s else lower_ext rt s)"

subsection \<open>Floats\<close>

text \<open>
  A Python \<^verbatim>\<open>float\<close> is an IEEE 754 binary64 value. A finite one is represented by the
  rational number it denotes; the sign of a zero is not represented (no operation of the
  modelled code observes it). Every result of an arithmetic operation is rounded to the
  nearest representable value, ties to the even significand, by \<open>round_binary64\<close>.
\<close>

datatype pyfloat = Fin rat | PInf | NInf | NaN

definition round_half_even :: "rat \<Rightarrow> int" where
  "round_half_even x =
     (let f = \<lfloor>x\<rfloor>; d = x - of_int f
      in if d < 1 / 2 then f else if 1 / 2 < d then f + 1 else if even f then f else f + 1)"

text \<open>For \<open>0 < x\<close>, the exponent \<open>e\<close> with \<open>2 powi e \<le> x < 2 powi (e + 1)\<close>.\<close>

definition floor_log2 :: "rat \<Rightarrow> int" where
  "floor_log2 x =
     (let (p, q) = quotient_of x; d = bitlen p - bitlen q
      in if 2 powi d \<le> x then d else d - 1)"

definition round_binary64 :: "rat \<Rightarrow> pyfloat" where
  "round_binary64 x =
     (if x = 0 then Fin 0
      else let a = \<bar>x\<bar>;
               e = max (floor_log2 a) (- 1022);
               ulp = 2 powi (e - 52);
               v = of_int (round_half_even (a / ulp)) * ulp
           in if 2 powi 1024 \<le> v then (if 0 < x then PInf else NInf)
              else Fin (sgn x * v))"

definition fneg :: "pyfloat \<Rightarrow> pyfloat" where
  "fneg x = (case x of Fin a \<Rightarrow> Fin (- a) | PInf \<Rightarrow> NInf | NInf \<Rightarrow> PInf | NaN \<Rightarrow> NaN)"

text \<open>\<^verbatim>\<open>x + y\<close>, \<^verbatim>\<open>x * y\<close> and \<^verbatim>\<open>x / y\<close> on floats; only the division can raise.\<close>

fun fadd :: "pyfloat \<Rightarrow> pyfloat \<Rightarrow> pyfloat" where
  "fadd (Fin a) (Fin b) = round_binary64 (a + b)"
| "fadd NaN y = NaN"
| "fadd x NaN = NaN"
| "fadd PInf NInf = NaN"
| "fadd NInf PInf = NaN"
| "fadd PInf y = PInf"
| "fadd NInf y = NInf"
| "fadd (Fin a) y = y"

fun fmul :: "pyfloat \<Rightarrow> pyfloat \<Rightarrow> pyfloat" where
  "fmul (Fin a) (Fin b) = round_binary64 (a * b)"
| "fmul NaN y = NaN"
| "fmul x NaN = NaN"
| "fmul (Fin a) y = (if a = 0 then NaN else if 0 < a then y else fneg y)"
| "fmul x (Fin b) = (if b = 0 then NaN else if 0 < b then x else fneg x)"
| "fmul PInf y = y"
| "fmul NInf y = fneg y"

fun fdiv :: "pyfloat \<Rightarrow> pyfloat \<Rightarrow> error + pyfloat" where
  "fdiv x (Fin b) =
     (if b = 0 then Inl ZeroDivisionError
      else case x of
        Fin a \<Rightarrow> Inr (round_binary64 (a / b))
      | NaN \<Rightarrow> Inr NaN
      | i \<Rightarrow> Inr (if 0 < b then i else fneg i))"
| "fdiv NaN y = Inr NaN"
| "fdiv x NaN = Inr NaN"
| "fdiv (Fin a) y = Inr (Fin 0)"
| "fdiv x y = Inr NaN"

text \<open>
  \<^verbatim>\<open>float(f)\<close> of a \<^verbatim>\<open>Fraction\<close> is the true division of its numerator by its
  denominator, two integers: correctly rounded, and an \<^verbatim>\<open>OverflowError\<close> when the quotient
  is too large for a float.
\<close>

definition float_of_Fraction :: "rat \<Rightarrow> error + pyfloat" where
  "float_of_Fraction r =
     (case round_binary64 r of
        Fin v \<Rightarrow> Inr (Fin v)
      | _ \<Rightarrow> Inl OverflowError)"

subsection \<open>Integers and fractions from strings\<close>

text \<open>
  \<^verbatim>\<open>int(s)\<close> for a string of decimal digits. CPython refuses a string of more than
  \<^verbatim>\<open>sys.get_int_max_str_digits()\<close> digits with a \<^verbatim>\<open>ValueError\<close> (the limit is looked at
  beyond 640 digits only, and 0 turns it off).
\<close>

fun digits_value :: "runtime \<Rightarrow> nat \<Rightarrow> pystr \<Rightarrow> nat option" where
  "digits_value rt acc [] = Some acc"
| "digits_value rt acc (c # cs) =
     (case decimal rt c of
        None \<Rightarrow> None
      | Some v \<Rightarrow> digits_value rt (10 * acc + v) cs)"

definition int_of_str :: "runtime \<Rightarrow> pystr \<Rightarrow> error + int" where
  "int_of_str rt s =
     (if s = [] then Inl ValueError
      else if 640 < length s \<and> 0 < max_str_digits rt \<and> max_str_digits rt < length s
        then Inl ValueError
      else case digits_value rt 0 s of
        None \<Rightarrow> Inl ValueError
      | Some n \<Rightarrow> Inr (int n))"

text \<open>
  \<^verbatim>\<open>Fraction(s)\<close> for a string \<open>s\<close> over decimal digits, \<^verbatim>\<open>/\<close> and \<^verbatim>\<open>.\<close>, the only
  characters a part of the quantity token can hold (no sign, exponent, underscore or
  whitespace). The pattern of the \<^verbatim>\<open>fractions\<close> module asks for a digit, or a point and a
  digit, at the start; then takes the digits of the numerator, and either \<^verbatim>\<open>/\<close> and the
  digits of a denominator, or a point and the digits of a decimal part; and nothing after.
  A zero denominator is a \<^verbatim>\<open>ZeroDivisionError\<close>, any other failure a \<^verbatim>\<open>ValueError\<close>.
\<close>

definition Fraction_of_str :: "runtime \<Rightarrow> pystr \<Rightarrow> error + rat" where
  "Fraction_of_str rt s =
     (let num = takeWhile (isdecimal rt) s;
          rest = dropWhile (isdecimal rt) s;
          lookahead = (case s of
              [] \<Rightarrow> False
            | c # cs \<Rightarrow> isdecimal rt c \<or> (c = 46 \<and> cs \<noteq> [] \<and> isdecimal rt (hd cs)))
      in if \<not> lookahead then Inl ValueError
         else case rest of
           [] \<Rightarrow> (case int_of_str rt num of
                    Inl e \<Rightarrow> Inl e
                  | Inr n \<Rightarrow> Inr (of_int n))
         | c # ds \<Rightarrow>
             if c = 47 \<and> ds \<noteq> [] \<and> list_all (isdecimal rt) ds then
               (case int_of_str rt num of
                  Inl e \<Rightarrow> Inl e
                | Inr n \<Rightarrow>
                    (case int_of_str rt ds of
                       Inl e \<Rightarrow> Inl e
                     | Inr d \<Rightarrow>
                         if d = 0 then Inl ZeroDivisionError else Inr (of_int n / of_int d)))
             else if c = 46 \<and> list_all (isdecimal rt) ds then
               (case int_of_str rt (if num = [] then asc ''0'' else num) of
                  Inl e \<Rightarrow> Inl e
                | Inr n \<Rightarrow>
                    if ds = [] then Inr (of_int n)
                    else (case int_of_str rt ds of
                            Inl e \<Rightarrow> Inl e
                          | Inr dec \<Rightarrow>
                              Inr (of_int (n * 10 ^ length ds + dec) / of_int (10 ^ length ds))))
             else Inl ValueError)"

text \<open>\<^verbatim>\<open>sum(Fraction(p) for p in parts)\<close>: the first part that fails raises.\<close>

fun sum_Fractions :: "runtime \<Rightarrow> pystr list \<Rightarrow> error + rat" where
  "sum_Fractions rt [] = Inr 0"
| "sum_Fractions rt (p # ps) =
     (case Fraction_of_str rt p of
        Inl e \<Rightarrow> Inl e
      | Inr f \<Rightarrow>
          (case sum_Fractions rt ps of
             Inl e \<Rightarrow> Inl e
           | Inr g \<Rightarrow> Inr (f + g)))"

section \<open>The ingredient engine\<close>

subsection \<open>Tables\<close>

text \<open>
  The dictionaries of the module, as association lists in the order they are written.
  \<^verbatim>\<open>d.get(k)\<close> is \<open>map_of d k\<close>.
\<close>

definition UNIT_ALIASES :: "(pystr \<times> pystr) list" where
  "UNIT_ALIASES =
    [(asc ''tablespoon'', asc ''tbsp''),
     (asc ''tablespoons'', asc ''tbsp''),
     (asc ''tbsps'', asc ''tbsp''),
     (asc ''tbs'', asc ''tbsp''),
     (asc ''T'', asc ''tbsp''),
     (asc ''teaspoon'', asc ''tsp''),
     (asc ''teaspoons'', asc ''tsp''),
     (asc ''tsps'', asc ''tsp''),
     (asc ''t'', asc ''tsp''),
     (asc ''cup'', asc ''cup''),
     (asc ''cups'', asc ''cup''),
     (asc ''c'', asc ''cup''),
     (asc ''ounce'', asc ''oz''),
     (asc ''ounces'', asc ''oz''),
     (asc ''pound'', asc ''lb''),
     (asc ''pounds'', asc ''lb''),
     (asc ''lbs'', asc ''lb''),
     (asc ''gram'', asc ''g''),
     (asc ''grams'', asc ''g''),
     (asc ''kilogram'', asc ''kg''),
     (asc ''kilograms'', asc ''kg''),
     (asc ''milliliter'', asc ''ml''),
     (asc ''milliliters'', asc ''ml''),
     (asc ''millilitres'', asc ''ml''),
     (asc ''liter'', asc ''l''),
     (asc ''liters'', asc ''l''),
     (asc ''litres'', asc ''l''),
     (asc ''litre'', asc ''l''),
     (asc ''pinch'', asc ''pinch''),
     (asc ''pinches'', asc ''pinch''),
     (asc ''clove'', asc ''clove''),
     (asc ''cloves'', asc ''clove''),
     (asc ''can'', asc ''can''),
     (asc ''cans'', asc ''can''),
     (asc ''bunch'', asc ''bunch''),
     (asc ''bunches'', asc ''bunch''),
     (asc ''slice'', asc ''slice''),
     (asc ''slices'', asc ''slice''),
     (asc ''piece'', asc ''piece''),
     (asc ''pieces'', asc ''piece'')]"

definition CONVERTIBLE :: "((pystr \<times> pystr) \<times> pyfloat) list" where
  "CONVERTIBLE =
    [((asc ''tsp'', asc ''tbsp''), Fin 3),
     ((asc ''tbsp'', asc ''cup''), Fin 16),
     ((asc ''g'', asc ''kg''), Fin 1000),
     ((asc ''ml'', asc ''l''), Fin 1000),
     ((asc ''oz'', asc ''lb''), Fin 16)]"

text \<open>
  The glyphs are the code points U+00BD, U+2153, U+2154, U+00BC, U+00BE, U+2155 to U+215E.
\<close>

definition VULGAR_MAP :: "(pychar \<times> pystr) list" where
  "VULGAR_MAP =
    [(189, asc ''1/2''),
     (8531, asc ''1/3''),
     (8532, asc ''2/3''),
     (188, asc ''1/4''),
     (190, asc ''3/4''),
     (8533, asc ''1/5''),
     (8534, asc ''2/5''),
     (8535, asc ''3/5''),
     (8536, asc ''4/5''),
     (8537, asc ''1/6''),
     (8538, asc ''5/6''),
     (8539, asc ''1/8''),
     (8540, asc ''3/8''),
     (8541, asc ''5/8''),
     (8542, asc ''7/8'')]"

subsection \<open>The quantity pattern\<close>

text \<open>
  \<^verbatim>\<open>_QTY_RE\<close> is \<^verbatim>\<open>^\s*([\d\s/<glyphs>.]+)\s*([a-zA-Z.]+)?\s*(.*)\<close>. The class of the
  first group holds the whitespace too, and the last group matches anything, so the
  greedy match never backtracks but at the start: when no character of the class follows
  the leading whitespace, the first group takes the last character of that whitespace.
  \<open>QTY_RE_match\<close> returns the three groups (an absent second group as the empty string,
  which is what \<^verbatim>\<open>m.group(2) or ""\<close> makes of it), \<open>None\<close> when the pattern does not match.
  The point of the last group matches every character but the line feed.
\<close>

definition qty_char :: "runtime \<Rightarrow> pychar \<Rightarrow> bool" where
  "qty_char rt c = (isdecimal rt c \<or> isspace c \<or> c = 47 \<or> c \<in> set (map fst VULGAR_MAP) \<or> c = 46)"

definition unit_char :: "pychar \<Rightarrow> bool" where
  "unit_char c = ((97 \<le> c \<and> c \<le> 122) \<or> (65 \<le> c \<and> c \<le> 90) \<or> c = 46)"

definition QTY_RE_match :: "runtime \<Rightarrow> pystr \<Rightarrow> (pystr \<times> pystr \<times> pystr) option" where
  "QTY_RE_match rt s =
     (let lead = takeWhile isspace s;
          rest = dropWhile isspace s;
          run = takeWhile (qty_char rt) rest;
          after = dropWhile (qty_char rt) rest;
          g1 = (if run \<noteq> [] then run else if lead \<noteq> [] then [last lead] else []);
          g2 = takeWhile unit_char after;
          g3 = takeWhile (\<lambda>c. c \<noteq> 10) (dropWhile isspace (dropWhile unit_char after))
      in if g1 = [] then None else Some (g1, g2, g3))"

subsection \<open>The parser\<close>

text \<open>The body of the \<^verbatim>\<open>try\<close>: \<^verbatim>\<open>float(sum(Fraction(p) for p in raw_qty.split()))\<close>.\<close>

definition eval_qty :: "runtime \<Rightarrow> pystr \<Rightarrow> error + pyfloat" where
  "eval_qty rt raw_qty =
     (case sum_Fractions rt (split raw_qty) of
        Inl e \<Rightarrow> Inl e
      | Inr f \<Rightarrow> float_of_Fraction f)"

definition replace_vulgar :: "pystr \<Rightarrow> pystr" where
  "replace_vulgar raw_qty = fold (\<lambda>(vf, frac) q. replace vf frac q) VULGAR_MAP raw_qty"

definition normalize_unit :: "runtime \<Rightarrow> pystr \<Rightarrow> pystr" where
  "normalize_unit rt raw_unit =
     (case map_of UNIT_ALIASES raw_unit of
        Some u \<Rightarrow> u
      | None \<Rightarrow>
          (case map_of UNIT_ALIASES (lower rt raw_unit) of
             Some u \<Rightarrow> u
           | None \<Rightarrow> lower rt raw_unit))"

text \<open>
  \<^verbatim>\<open>_parse_quantity\<close>: the result is \<open>(qty, unit, name)\<close>. The \<^verbatim>\<open>except\<close> clause catches
  \<^verbatim>\<open>ValueError\<close> and \<^verbatim>\<open>ZeroDivisionError\<close>; any other exception leaves the function.
\<close>

definition parse_quantity :: "runtime \<Rightarrow> pystr \<Rightarrow> error + (pyfloat \<times> pystr \<times> pystr)" where
  "parse_quantity rt text =
     (case QTY_RE_match rt (strip text) of
        None \<Rightarrow> Inr (Fin 0, [], strip text)
      | Some (g1, g2, g3) \<Rightarrow>
          let raw_qty = strip g1;
              raw_unit = rstrip_chars (asc ''.'') (strip g2);
              name = strip g3;
              raw_qty = replace_vulgar raw_qty
          in (case eval_qty rt raw_qty of
                Inl e \<Rightarrow>
                  if e = ValueError \<or> e = ZeroDivisionError then Inr (Fin 0, [], strip text)
                  else Inl e
              | Inr qty \<Rightarrow>
                  let unit = normalize_unit rt raw_unit;
                      name = strip_chars (asc '' ,.-'' @ [9]) name
                  in if name = [] \<and> raw_unit \<noteq> [] then Inr (qty, [], raw_unit)
                     else Inr (qty, unit, name)))"

subsection \<open>The converter\<close>

text \<open>
  \<^verbatim>\<open>_try_convert\<close>: \<open>Inr None\<close> is the \<^verbatim>\<open>None\<close> of the source, \<open>Inl\<close> an exception of the
  float division.
\<close>

definition try_convert :: "pyfloat \<Rightarrow> pystr \<Rightarrow> pystr \<Rightarrow> error + pyfloat option" where
  "try_convert q from_unit to_unit =
     (if from_unit = to_unit then Inr (Some q)
      else case map_of CONVERTIBLE (from_unit, to_unit) of
        Some f \<Rightarrow> (case fdiv q f of Inl e \<Rightarrow> Inl e | Inr v \<Rightarrow> Inr (Some v))
      | None \<Rightarrow>
          (case map_of CONVERTIBLE (to_unit, from_unit) of
             Some f \<Rightarrow> Inr (Some (fmul q f))
           | None \<Rightarrow> Inr None))"

subsection \<open>The formatter\<close>

text \<open>\<^verbatim>\<open>str(i)\<close> of an integer and \<^verbatim>\<open>str(f)\<close> of a \<^verbatim>\<open>Fraction\<close>.\<close>

fun str_nat :: "nat \<Rightarrow> pystr" where
  "str_nat n = (if n < 10 then [48 + n] else str_nat (n div 10) @ [48 + n mod 10])"

declare str_nat.simps [simp del]

definition str_int :: "int \<Rightarrow> pystr" where
  "str_int i = (if i < 0 then 45 # str_nat (nat (- i)) else str_nat (nat i))"

definition str_Fraction :: "rat \<Rightarrow> pystr" where
  "str_Fraction f =
     (let (n, d) = quotient_of f
      in if d = 1 then str_int n else str_int n @ [47] @ str_int d)"

text \<open>\<^verbatim>\<open>int(x)\<close> of a finite float truncates towards zero.\<close>

definition trunc :: "rat \<Rightarrow> int" where
  "trunc r = (if 0 \<le> r then \<lfloor>r\<rfloor> else \<lceil>r\<rceil>)"

text \<open>
  \<^verbatim>\<open>Fraction.limit_denominator\<close> of the \<^verbatim>\<open>fractions\<close> module: the loop walks the
  convergents of the continued fraction of \<open>n / d\<close> while their denominators stay within
  \<open>M\<close>; \<^verbatim>\<open>n // d\<close> raises on a zero \<open>d\<close>.
\<close>

function ld_loop ::
  "int \<Rightarrow> int \<Rightarrow> int \<Rightarrow> int \<Rightarrow> int \<Rightarrow> int \<Rightarrow> int
     \<Rightarrow> error + (int \<times> int \<times> int \<times> int \<times> int \<times> int)" where
  "ld_loop M p0 q0 p1 q1 n d =
     (if d = 0 then Inl ZeroDivisionError
      else let a = n div d; q2 = q0 + a * q1
           in if M < q2 then Inr (p0, q0, p1, q1, n, d)
              else ld_loop M p1 q1 (p0 + a * p1) q2 d (n - a * d))"
  by pat_completeness auto
termination
proof (relation "measure (\<lambda>(M, p0, q0, p1, q1, n, d). nat \<bar>d\<bar>)")
  show "wf (measure (\<lambda>(M, p0, q0, p1, q1, n, d). nat \<bar>d\<bar>))"
    by simp
next
  fix M p0 q0 p1 q1 n d :: int and a q2 :: int
  assume d: "d \<noteq> 0" and a: "a = n div d"
  have "n - a * d = n mod d"
    using a by (simp add: minus_div_mult_eq_mod)
  moreover have "\<bar>n mod d\<bar> < \<bar>d\<bar>"
    using d by (rule abs_mod_less)
  ultimately show "((M, p1, q1, p0 + a * p1, q2, d, n - a * d), (M, p0, q0, p1, q1, n, d))
      \<in> measure (\<lambda>(M, p0, q0, p1, q1, n, d). nat \<bar>d\<bar>)"
    by simp
qed

declare ld_loop.simps [simp del]

definition limit_denominator :: "rat \<Rightarrow> int \<Rightarrow> error + rat" where
  "limit_denominator self M =
     (if M < 1 then Inl ValueError
      else let (num, den) = quotient_of self
           in if den \<le> M then Inr self
              else (case ld_loop M 0 1 1 0 num den of
                      Inl e \<Rightarrow> Inl e
                    | Inr (p0, q0, p1, q1, n, d) \<Rightarrow>
                        if q1 = 0 then Inl ZeroDivisionError
                        else let k = (M - q0) div q1
                             in if q0 + k * q1 = 0 then Inl ZeroDivisionError
                                else let bound1 = of_int (p0 + k * p1) / of_int (q0 + k * q1);
                                         bound2 = of_int p1 / of_int q1
                                     in if \<bar>bound2 - self\<bar> \<le> \<bar>bound1 - self\<bar>
                                        then Inr bound2 else Inr bound1))"

text \<open>
  The \<^verbatim>\<open>except\<close> branch: \<^verbatim>\<open>f"{qty:.2f}".rstrip("0").rstrip(".")\<close>, two decimals of the
  exact value, rounded half to even.
\<close>

definition format_2f :: "pyfloat \<Rightarrow> pystr" where
  "format_2f x =
     (case x of
        NaN \<Rightarrow> asc ''nan''
      | PInf \<Rightarrow> asc ''inf''
      | NInf \<Rightarrow> asc ''-inf''
      | Fin r \<Rightarrow>
          let n = round_half_even (\<bar>r\<bar> * 100);
              s = str_int (n div 100) @ [46] @ [48 + nat (n mod 100 div 10), 48 + nat (n mod 10)]
          in if r < 0 then 45 # s else s)"

text \<open>
  \<^verbatim>\<open>_format_qty\<close>. \<^verbatim>\<open>int(qty)\<close> stands before the \<^verbatim>\<open>try\<close>, and raises on an infinity
  (\<^verbatim>\<open>OverflowError\<close>) and on a NaN (\<^verbatim>\<open>ValueError\<close>).
\<close>

definition format_qty :: "pyfloat \<Rightarrow> error + pystr" where
  "format_qty q =
     (if q = Fin 0 then Inr []
      else case q of
        NaN \<Rightarrow> Inl ValueError
      | PInf \<Rightarrow> Inl OverflowError
      | NInf \<Rightarrow> Inl OverflowError
      | Fin r \<Rightarrow>
          if r = of_int (trunc r) then Inr (str_int (trunc r))
          else (case limit_denominator r 16 of
                  Inl e \<Rightarrow>
                    if e = ValueError \<or> e = OverflowError
                    then Inr (rstrip_chars (asc ''.'') (rstrip_chars (asc ''0'') (format_2f q)))
                    else Inl e
                | Inr f \<Rightarrow>
                    if snd (quotient_of f) < fst (quotient_of f) then
                      (let whole = fst (quotient_of f) div snd (quotient_of f);
                           rem = f - of_int whole
                       in if rem \<noteq> 0 then Inr (str_int whole @ [32] @ str_Fraction rem)
                          else Inr (str_int whole))
                    else Inr (str_Fraction f)))"

subsection \<open>The aggregator\<close>

text \<open>
  A recipe is a dictionary; the engine reads its key \<^verbatim>\<open>ingredients\<close> only, absent
  (\<open>None\<close>) or a list of lines. An aggregated item is the dictionary with the keys
  \<^verbatim>\<open>name\<close>, \<^verbatim>\<open>qty\<close>, \<^verbatim>\<open>unit\<close> and \<^verbatim>\<open>raw_sources\<close>. The dictionary \<^verbatim>\<open>merged\<close> keeps its
  keys in the order of their insertion: an association list, where \<open>AList.update\<close>
  replaces the value of a key in place and appends a new key.
\<close>

record recipe =
  ingredients :: "pystr list option"

record item =
  name :: pystr
  qty :: pyfloat
  unit :: pystr
  raw_sources :: "pystr list"

text \<open>The merge of a parsed line \<open>(q, u, _)\<close> into the item of its key.\<close>

definition merge_existing :: "item \<Rightarrow> pyfloat \<Rightarrow> pystr \<Rightarrow> error + item" where
  "merge_existing existing q u =
     (if u \<noteq> [] \<and> unit existing \<noteq> [] then
        (case try_convert q u (unit existing) of
           Inl e \<Rightarrow> Inl e
         | Inr (Some converted) \<Rightarrow> Inr (existing\<lparr>qty := fadd (qty existing) converted\<rparr>)
         | Inr None \<Rightarrow>
             (case try_convert (qty existing) (unit existing) u of
                Inl e \<Rightarrow> Inl e
              | Inr (Some converted_rev) \<Rightarrow>
                  Inr (existing\<lparr>qty := fadd converted_rev q, unit := u\<rparr>)
              | Inr None \<Rightarrow>
                  Inr (existing\<lparr>qty := fadd (qty existing) q,
                         unit := (if u \<noteq> unit existing then unit existing @ [43] @ u
                                  else unit existing)\<rparr>)))
      else Inr (existing\<lparr>qty := fadd (qty existing) q,
                  unit := (if unit existing \<noteq> [] then unit existing else u)\<rparr>))"

definition line_key :: "runtime \<Rightarrow> pystr \<Rightarrow> pystr" where
  "line_key rt nm = strip (lower rt nm)"

definition add_line :: "runtime \<Rightarrow> (pystr \<times> item) list \<Rightarrow> pystr \<Rightarrow> error + (pystr \<times> item) list" where
  "add_line rt merged line =
     (case parse_quantity rt line of
        Inl e \<Rightarrow> Inl e
      | Inr (q, u, nm) \<Rightarrow>
          let key = line_key rt nm
          in if key = [] then Inr merged
             else (case map_of merged key of
                     Some existing \<Rightarrow>
                       (case merge_existing existing q u of
                          Inl e \<Rightarrow> Inl e
                        | Inr ex \<Rightarrow>
                            Inr (AList.update key
                                   (ex\<lparr>raw_sources := raw_sources ex @ [line]\<rparr>) merged))
                   | None \<Rightarrow>
                       Inr (AList.update key
                              \<lparr>name = nm, qty = q, unit = u, raw_sources = [line]\<rparr> merged)))"

fun add_lines :: "runtime \<Rightarrow> (pystr \<times> item) list \<Rightarrow> pystr list \<Rightarrow> error + (pystr \<times> item) list" where
  "add_lines rt merged [] = Inr merged"
| "add_lines rt merged (line # lines) =
     (case add_line rt merged line of
        Inl e \<Rightarrow> Inl e
      | Inr m \<Rightarrow> add_lines rt m lines)"

fun add_recipes :: "runtime \<Rightarrow> (pystr \<times> item) list \<Rightarrow> recipe list \<Rightarrow> error + (pystr \<times> item) list" where
  "add_recipes rt merged [] = Inr merged"
| "add_recipes rt merged (r # rs) =
     (case add_lines rt merged (case ingredients r of None \<Rightarrow> [] | Some ls \<Rightarrow> ls) of
        Inl e \<Rightarrow> Inl e
      | Inr m \<Rightarrow> add_recipes rt m rs)"

definition combine_ingredients :: "runtime \<Rightarrow> recipe list \<Rightarrow> error + item list" where
  "combine_ingredients rt recipes =
     (case add_recipes rt [] recipes of
        Inl e \<Rightarrow> Inl e
      | Inr merged \<Rightarrow> Inr (sort_key (\<lambda>x. lower rt (name x)) (map snd merged)))"

text \<open>The lines of all recipes, in the order the two loops meet them.\<close>

definition all_lines :: "recipe list \<Rightarrow> pystr list" where
  "all_lines recipes = concat (map (\<lambda>r. case ingredients r of None \<Rightarrow> [] | Some ls \<Rightarrow> ls) recipes)"

text \<open>
  The grouping key of a line, \<^verbatim>\<open>name.lower().strip()\<close> of its parsed name; a line whose
  parse raises has none.
\<close>

definition key_of :: "runtime \<Rightarrow> pystr \<Rightarrow> pystr option" where
  "key_of rt line =
     (case parse_quantity rt line of
        Inl e \<Rightarrow> None
      | Inr (q, u, nm) \<Rightarrow> Some (line_key rt nm))"

definition name_of :: "runtime \<Rightarrow> pystr \<Rightarrow> pystr option" where
  "name_of rt line =
     (case parse_quantity rt line of
        Inl e \<Rightarrow> None
      | Inr (q, u, nm) \<Rightarrow> Some nm)"

text \<open>
  \<open>merge_existing\<close> with the branch of the reverse conversion taken out, to state that
  the branch is dead.
\<close>

definition merge_existing_no_reverse :: "item \<Rightarrow> pyfloat \<Rightarrow> pystr \<Rightarrow> error + item" where
  "merge_existing_no_reverse existing q u =
     (if u \<noteq> [] \<and> unit existing \<noteq> [] then
        (case try_convert q u (unit existing) of
           Inl e \<Rightarrow> Inl e
         | Inr (Some converted) \<Rightarrow> Inr (existing\<lparr>qty := fadd (qty existing) converted\<rparr>)
         | Inr None \<Rightarrow>
             Inr (existing\<lparr>qty := fadd (qty existing) q,
                    unit := (if u \<noteq> unit existing then unit existing @ [43] @ u
                             else unit existing)\<rparr>))
      else Inr (existing\<lparr>qty := fadd (qty existing) q,
                  unit := (if unit existing \<noteq> [] then unit existing else u)\<rparr>))"

text \<open>
  A runtime for the examples, whose lines are ASCII but for the fraction glyphs: no digit
  beyond ASCII, and the default limit of 4300 digits.
\<close>

definition ascii_runtime :: runtime where
  "ascii_runtime = \<lparr>decimal_ext = (\<lambda>c. None), lower_ext = (\<lambda>s. s), max_str_digits = 4300\<rparr>"

text \<open>
  The state of the loops after the lines \<open>seen\<close>: the keys of \<open>merged\<close> are distinct and
  are the non-empty keys of the lines seen; the item of a key holds the lines of that key,
  in the order they were seen, and the name parsed from the first of them.
\<close>

definition merged_inv :: "runtime \<Rightarrow> pystr list \<Rightarrow> (pystr \<times> item) list \<Rightarrow> bool" where
  "merged_inv rt seen merged \<longleftrightarrow>
     distinct (map fst merged)
     \<and> (\<forall>k. k \<in> fst ` set merged \<longleftrightarrow> k \<noteq> [] \<and> Some k \<in> key_of rt ` set seen)
     \<and> (\<forall>k it. map_of merged k = Some it \<longrightarrow>
           raw_sources it = filter (\<lambda>l. key_of rt l = Some k) seen
           \<and> (\<exists>l. find (\<lambda>l. key_of rt l = Some k) seen = Some l
                 \<and> name_of rt l = Some (name it)))"

section \<open>Properties\<close>

subsection \<open>Floats: the rounding\<close>

text \<open>
  \<open>floor_log2\<close> is the binary exponent, so \<open>round_binary64\<close> rounds to 53 significant
  bits; a value with at most 53 significant bits is left as it is, and a value from
  \<open>2 powi 1024\<close> on has no float.
\<close>

lemma floor_log2_bounds:
  assumes "0 < x"
  shows "2 powi floor_log2 x \<le> x \<and> x < 2 powi (floor_log2 x + 1)"
proof -
  obtain p q where pq: "quotient_of x = (p, q)"
    by (cases "quotient_of x")
  then have q: "0 < q" and x: "x = of_int p / of_int q"
    using quotient_of_denom_pos quotient_of_div by auto
  with assms have p: "0 < p"
    by (simp add: zero_less_divide_iff)
  define bp bq where "bp = bitlen p" and "bq = bitlen q"
  have bp1: "1 \<le> bp" and bq1: "1 \<le> bq"
    using p q by (auto simp: bp_def bq_def bitlen_alt_def)
  have "2 ^ nat (bp - 1) \<le> p" "p < 2 ^ nat bp" "2 ^ nat (bq - 1) \<le> q" "q < 2 ^ nat bq"
    using bitlen_bounds [OF p] bitlen_bounds [OF q] by (simp_all add: bp_def bq_def)
  then have "(of_int (2 ^ nat (bp - 1)) :: rat) \<le> of_int p" "(of_int p :: rat) < of_int (2 ^ nat bp)"
    "(of_int (2 ^ nat (bq - 1)) :: rat) \<le> of_int q" "(of_int q :: rat) < of_int (2 ^ nat bq)"
    by (simp_all only: of_int_le_iff of_int_less_iff)
  then have P: "(2::rat) powi (bp - 1) \<le> of_int p" "(of_int p :: rat) < 2 powi bp"
    and Q: "(2::rat) powi (bq - 1) \<le> of_int q" "(of_int q :: rat) < 2 powi bq"
    using bp1 bq1 by (simp_all add: power_int_nonneg_exp)
  have "of_int p / of_int q < (2::rat) powi bp / 2 powi (bq - 1)"
    using P Q p q by (intro frac_less) simp_all
  then have up: "x < 2 powi (bp - bq + 1)"
    by (simp add: x power_int_diff [symmetric] algebra_simps)
  have "(2::rat) powi (bp - 1) / 2 powi bq < of_int p / of_int q"
    using P Q p q by (intro frac_less2) simp_all
  then have lo: "2 powi (bp - bq - 1) < x"
    by (simp add: x power_int_diff [symmetric] algebra_simps)
  show ?thesis
  proof (cases "2 powi (bp - bq) \<le> x")
    case True
    then have "floor_log2 x = bp - bq"
      by (simp add: floor_log2_def pq bp_def bq_def)
    with True up show ?thesis by simp
  next
    case False
    then have "floor_log2 x = bp - bq - 1"
      by (simp add: floor_log2_def pq bp_def bq_def)
    with False lo show ?thesis by simp
  qed
qed

lemma floor_log2_unique:
  assumes "0 < x" and lo: "2 powi e \<le> x" and up: "x < 2 powi (e + 1)"
  shows "floor_log2 x = e"
proof (rule antisym)
  have b: "2 powi floor_log2 x \<le> x" "x < 2 powi (floor_log2 x + 1)"
    using floor_log2_bounds [OF \<open>0 < x\<close>] by simp_all
  show "floor_log2 x \<le> e"
  proof (rule ccontr)
    assume "\<not> floor_log2 x \<le> e"
    then have "(2::rat) powi (e + 1) \<le> 2 powi floor_log2 x"
      by (intro power_int_increasing) simp_all
    with b up show False by simp
  qed
  show "e \<le> floor_log2 x"
  proof (rule ccontr)
    assume "\<not> e \<le> floor_log2 x"
    then have "(2::rat) powi (floor_log2 x + 1) \<le> 2 powi e"
      by (intro power_int_increasing) simp_all
    with b lo show False by simp
  qed
qed

lemma round_binary64_pos:
  assumes "0 < x" "2 powi e \<le> x" "x < 2 powi (e + 1)" "- 1022 \<le> e"
  shows "round_binary64 x =
    (if (2::rat) powi 1024 \<le> of_int (round_half_even (x / 2 powi (e - 52))) * 2 powi (e - 52)
     then PInf
     else Fin (of_int (round_half_even (x / 2 powi (e - 52))) * 2 powi (e - 52)))"
proof -
  have fl: "floor_log2 x = e"
    using assms(1-3) by (rule floor_log2_unique)
  have mx: "max e (- 1022) = e"
    using assms(4) by simp
  have ab: "\<bar>x\<bar> = x" "sgn x = 1" "x \<noteq> 0"
    using assms(1) by simp_all
  show ?thesis
    unfolding round_binary64_def Let_def ab fl mx using assms(1) by simp
qed

lemma round_half_even_of_int [simp]: "round_half_even (of_int m) = m"
  by (simp add: round_half_even_def)

lemma round_binary64_exact:
  assumes "0 < x" "2 powi e \<le> x" "x < 2 powi (e + 1)" "- 1022 \<le> e" "e < 1024"
    and m: "x / 2 powi (e - 52) = of_int m"
  shows "round_binary64 x = Fin x"
proof -
  have v: "of_int m * 2 powi (e - 52) = x"
    using m by (simp add: field_simps)
  have "(2::rat) powi (e + 1) \<le> 2 powi 1024"
    using \<open>e < 1024\<close> by (intro power_int_increasing) simp_all
  with assms(3) have "\<not> (2::rat) powi 1024 \<le> x" by simp
  then show ?thesis
    unfolding round_binary64_pos [OF assms(1-4)] m round_half_even_of_int v by simp
qed

lemma floor_rat_numeral_div: "\<lfloor>numeral a / numeral b :: rat\<rfloor> = numeral a div numeral b"
  by (metis floor_divide_of_int_eq of_int_numeral)

lemma rb_1: "round_binary64 1 = Fin 1"
  by (rule round_binary64_exact [where e = 0 and m = "2 ^ 52"]) simp_all

lemma rb_2: "round_binary64 2 = Fin 2"
  by (rule round_binary64_exact [where e = 1 and m = "2 ^ 52"]) simp_all

lemma rb_3: "round_binary64 3 = Fin 3"
  by (rule round_binary64_exact [where e = 1 and m = "3 * 2 ^ 51"]) simp_all

lemma rb_3_2: "round_binary64 (3 / 2) = Fin (3 / 2)"
  by (rule round_binary64_exact [where e = 0 and m = "3 * 2 ^ 51"]) simp_all

lemma rb_201: "round_binary64 201 = Fin 201"
  by (rule round_binary64_exact [where e = 7 and m = "201 * 2 ^ 45"]) simp_all

lemma rb_2_3: "round_binary64 (2 / 3) = Fin (6004799503160661 / 9007199254740992)"
  by (subst round_binary64_pos [where e = "- 1"])
    (simp_all add: round_half_even_def Let_def floor_rat_numeral_div)

lemma rb_5_3: "round_binary64 (1 + 6004799503160661 / 9007199254740992) = Fin (3752999689475413 / 2251799813685248)"
  by (subst round_binary64_pos [where e = 0])
    (simp_all add: round_half_even_def Let_def floor_rat_numeral_div)


lemma floor_le_round_half_even: "\<lfloor>x\<rfloor> \<le> round_half_even x"
  by (simp add: round_half_even_def Let_def)

lemma round_binary64_overflow:
  assumes big: "2 powi 1024 \<le> x"
  shows "round_binary64 x = PInf"
proof -
  define e where "e = floor_log2 x"
  have "(0::rat) < 2 powi 1024"
    by simp
  then have pos: "0 < x"
    using big by (rule less_le_trans)
  have b: "2 powi e \<le> x" "x < 2 powi (e + 1)"
    using floor_log2_bounds [OF pos] by (simp_all add: e_def)
  have "(2::rat) powi 1024 < 2 powi (e + 1)"
    using big b(2) by (rule le_less_trans)
  have e: "1024 \<le> e"
  proof (rule ccontr)
    assume "\<not> 1024 \<le> e"
    then have "(2::rat) powi (e + 1) \<le> 2 powi 1024"
      by (intro power_int_increasing) simp_all
    with \<open>(2::rat) powi 1024 < 2 powi (e + 1)\<close> show False
      by simp
  qed
  define y where "y = x / 2 powi (e - 52)"
  have "(2::rat) powi e / 2 powi (e - 52) \<le> y"
    unfolding y_def using b(1) by (intro divide_right_mono) simp_all
  then have "of_int (2 ^ 52) \<le> y"
    by (simp add: power_int_diff [symmetric])
  then have "2 ^ 52 \<le> \<lfloor>y\<rfloor>"
    by (simp only: le_floor_iff)
  then have "2 ^ 52 \<le> round_half_even y"
    using floor_le_round_half_even [of y] by linarith
  then have "(of_int (2 ^ 52) :: rat) \<le> of_int (round_half_even y)"
    by (simp only: of_int_le_iff)
  then have "(of_int (2 ^ 52) :: rat) * 2 powi (e - 52) \<le> of_int (round_half_even y) * 2 powi (e - 52)"
    by (intro mult_right_mono) simp_all
  moreover have "(of_int (2 ^ 52) :: rat) * 2 powi (e - 52) = 2 powi e"
  proof -
    have "(2::rat) powi 52 * 2 powi (e - 52) = 2 powi (52 + (e - 52))"
      by (rule power_int_add [symmetric]) simp
    then show ?thesis by simp
  qed
  moreover have "(2::rat) powi 1024 \<le> 2 powi e"
    using e by (intro power_int_increasing) simp_all
  ultimately have v: "(2::rat) powi 1024 \<le> of_int (round_half_even y) * 2 powi (e - 52)"
    by linarith
  have "- 1022 \<le> e"
    using e by simp
  from round_binary64_pos [OF pos b this] v show ?thesis
    by (simp only: y_def if_True)
qed

lemma float_overflow: "float_of_Fraction (10 ^ 309) = Inl OverflowError"
  by (simp add: float_of_Fraction_def round_binary64_overflow)

subsection \<open>The converter\<close>

lemma fdiv_Fin: "b \<noteq> 0 \<Longrightarrow> \<exists>v. fdiv x (Fin b) = Inr v"
  by (cases x) simp_all

lemma CONVERTIBLE_eval:
  "CONVERTIBLE =
    [(([116, 115, 112], [116, 98, 115, 112]), Fin 3),
     (([116, 98, 115, 112], [99, 117, 112]), Fin 16),
     (([103], [107, 103]), Fin 1000),
     (([109, 108], [108]), Fin 1000),
     (([111, 122], [108, 98]), Fin 16)]"
  by (simp add: CONVERTIBLE_def asc_def)

lemma CONVERTIBLE_cases:
  assumes "map_of CONVERTIBLE (a, b) = Some f"
  shows "(a = [116, 115, 112] \<and> b = [116, 98, 115, 112] \<and> f = Fin 3)
       \<or> (a = [116, 98, 115, 112] \<and> b = [99, 117, 112] \<and> f = Fin 16)
       \<or> (a = [103] \<and> b = [107, 103] \<and> f = Fin 1000)
       \<or> (a = [109, 108] \<and> b = [108] \<and> f = Fin 1000)
       \<or> (a = [111, 122] \<and> b = [108, 98] \<and> f = Fin 16)"
proof -
  have "((a, b), f) \<in> set CONVERTIBLE"
    using assms by (rule map_of_SomeD)
  then show ?thesis
    unfolding CONVERTIBLE_eval by simp
qed

lemma CONVERTIBLE_factor:
  assumes "map_of CONVERTIBLE (a, b) = Some f"
  shows "\<exists>c. f = Fin c \<and> c \<noteq> 0"
  using CONVERTIBLE_cases [OF assms] by (elim disjE conjE) simp_all

lemma CONVERTIBLE_one_way:
  assumes "map_of CONVERTIBLE (a, b) = Some f"
  shows "a \<noteq> b \<and> map_of CONVERTIBLE (b, a) = None"
  using CONVERTIBLE_cases [OF assms] by (elim disjE conjE) (simp_all add: CONVERTIBLE_eval)


lemma try_convert_None_iff:
  "try_convert q u1 u2 = Inr None \<longleftrightarrow>
     u1 \<noteq> u2 \<and> map_of CONVERTIBLE (u1, u2) = None \<and> map_of CONVERTIBLE (u2, u1) = None"
proof (cases "map_of CONVERTIBLE (u1, u2)")
  case None
  then show ?thesis
    by (simp add: try_convert_def split: option.split)
next
  case (Some f)
  then obtain c where "f = Fin c" "c \<noteq> 0"
    using CONVERTIBLE_factor by blast
  moreover obtain v where "fdiv q (Fin c) = Inr v"
    using fdiv_Fin [OF \<open>c \<noteq> 0\<close>] by blast
  ultimately show ?thesis
    using Some by (simp add: try_convert_def del: fdiv.simps)
qed

lemma try_convert_no_error: "try_convert q u1 u2 \<noteq> Inl e"
proof (cases "map_of CONVERTIBLE (u1, u2)")
  case None
  then show ?thesis
    by (simp add: try_convert_def split: option.split)
next
  case (Some f)
  then obtain c where "f = Fin c" "c \<noteq> 0"
    using CONVERTIBLE_factor by blast
  moreover obtain v where "fdiv q (Fin c) = Inr v"
    using fdiv_Fin [OF \<open>c \<noteq> 0\<close>] by blast
  ultimately show ?thesis
    using Some by (simp add: try_convert_def del: fdiv.simps)
qed

lemma try_convert_reverse_None:
  "try_convert q u1 u2 = Inr None \<Longrightarrow> try_convert q' u2 u1 = Inr None"
  unfolding try_convert_None_iff by auto

lemma tc_tsp_tbsp: "try_convert (Fin 3) (asc ''tsp'') (asc ''tbsp'') = Inr (Some (Fin 1))"
  by (simp add: try_convert_def CONVERTIBLE_eval asc_def rb_1)

lemma tc_tbsp_tsp: "try_convert (Fin 1) (asc ''tbsp'') (asc ''tsp'') = Inr (Some (Fin 3))"
  by (simp add: try_convert_def CONVERTIBLE_eval asc_def rb_3)

lemma tc_tsp_cup: "try_convert (Fin 5) (asc ''tsp'') (asc ''cup'') = Inr None"
  by (simp add: try_convert_def CONVERTIBLE_eval asc_def)

text \<open>
  C3. The converter returns the amount unchanged when the two units are equal; the amount
  divided by the factor when the pair (from, to) is in the table; the amount multiplied by
  the factor when the pair (to, from) is in the table; and \<^verbatim>\<open>None\<close> otherwise, with no
  chaining: 3 tsp are 1.0 tbsp, 1 tbsp is 3.0 tsp, and 5 tsp do not convert to cup.
\<close>

theorem try_convert_spec:
  "try_convert q u u = Inr (Some q)
   \<and> (map_of CONVERTIBLE (u1, u2) = Some f \<longrightarrow>
        (\<exists>v. fdiv q f = Inr v \<and> try_convert q u1 u2 = Inr (Some v)))
   \<and> (map_of CONVERTIBLE (u2, u1) = Some f \<longrightarrow> try_convert q u1 u2 = Inr (Some (fmul q f)))
   \<and> (u1 \<noteq> u2 \<and> map_of CONVERTIBLE (u1, u2) = None \<and> map_of CONVERTIBLE (u2, u1) = None \<longrightarrow>
        try_convert q u1 u2 = Inr None)
   \<and> try_convert (Fin 3) (asc ''tsp'') (asc ''tbsp'') = Inr (Some (Fin 1))
   \<and> try_convert (Fin 1) (asc ''tbsp'') (asc ''tsp'') = Inr (Some (Fin 3))
   \<and> try_convert (Fin 5) (asc ''tsp'') (asc ''cup'') = Inr None"
proof (intro conjI impI)
  show "try_convert q u u = Inr (Some q)"
    by (simp add: try_convert_def)
next
  assume tab: "map_of CONVERTIBLE (u1, u2) = Some f"
  then obtain c where "f = Fin c" "c \<noteq> 0"
    using CONVERTIBLE_factor by blast
  then obtain v where v: "fdiv q f = Inr v"
    using fdiv_Fin [of c q] by blast
  moreover have "u1 \<noteq> u2"
    using CONVERTIBLE_one_way [OF tab] by simp
  ultimately show "\<exists>v. fdiv q f = Inr v \<and> try_convert q u1 u2 = Inr (Some v)"
    using tab by (simp add: try_convert_def del: fdiv.simps)
next
  assume tab: "map_of CONVERTIBLE (u2, u1) = Some f"
  then have "u1 \<noteq> u2" "map_of CONVERTIBLE (u1, u2) = None"
    using CONVERTIBLE_one_way [OF tab] by auto
  with tab show "try_convert q u1 u2 = Inr (Some (fmul q f))"
    by (simp add: try_convert_def)
next
  assume "u1 \<noteq> u2 \<and> map_of CONVERTIBLE (u1, u2) = None \<and> map_of CONVERTIBLE (u2, u1) = None"
  then show "try_convert q u1 u2 = Inr None"
    by (simp add: try_convert_None_iff)
qed (rule tc_tsp_tbsp tc_tbsp_tsp tc_tsp_cup)+

theorem try_convert_spec_witness:
  "(map_of CONVERTIBLE (asc ''tsp'', asc ''tbsp'') = Some (Fin 3)
      \<and> try_convert (Fin 6) (asc ''tsp'') (asc ''tbsp'') = Inr (Some (Fin 2)))
   \<and> (map_of CONVERTIBLE (asc ''g'', asc ''kg'') = Some (Fin 1000)
      \<and> try_convert (Fin 2) (asc ''kg'') (asc ''g'') = Inr (Some (fmul (Fin 2) (Fin 1000))))
   \<and> (asc ''cup'' \<noteq> asc ''g'' \<and> map_of CONVERTIBLE (asc ''cup'', asc ''g'') = None
      \<and> map_of CONVERTIBLE (asc ''g'', asc ''cup'') = None
      \<and> try_convert (Fin 1) (asc ''cup'') (asc ''g'') = Inr None)"
proof -
  have a: "map_of CONVERTIBLE (asc ''tsp'', asc ''tbsp'') = Some (Fin 3)"
    by (simp add: CONVERTIBLE_eval asc_def)
  have b: "map_of CONVERTIBLE (asc ''g'', asc ''kg'') = Some (Fin 1000)"
    by (simp add: CONVERTIBLE_eval asc_def)
  have c: "asc ''cup'' \<noteq> asc ''g'' \<and> map_of CONVERTIBLE (asc ''cup'', asc ''g'') = None
      \<and> map_of CONVERTIBLE (asc ''g'', asc ''cup'') = None"
    by (simp add: CONVERTIBLE_eval asc_def)
  have d: "fdiv (Fin 6) (Fin 3) = Inr (Fin 2)"
    by (simp add: rb_2)
  show ?thesis
    using a b c d
      try_convert_spec [of "Fin 6" u "asc ''tsp''" "asc ''tbsp''" "Fin 3"]
      try_convert_spec [of "Fin 2" u "asc ''kg''" "asc ''g''" "Fin 1000"]
      try_convert_spec [of "Fin 1" u "asc ''cup''" "asc ''g''" f]
    by (simp del: fdiv.simps fmul.simps)
qed

text \<open>
  C10. The converter fails on a pair of units exactly when it fails on the reversed pair,
  whatever the two amounts; so in the merge the reverse conversion, tried after the forward
  one has failed, fails too: taking its branch out does not change the merge.
\<close>

theorem try_convert_symmetric:
  "(try_convert q u1 u2 = Inr None \<longleftrightarrow> try_convert q' u2 u1 = Inr None)
   \<and> merge_existing existing q u = merge_existing_no_reverse existing q u"
proof
  show "try_convert q u1 u2 = Inr None \<longleftrightarrow> try_convert q' u2 u1 = Inr None"
    using try_convert_reverse_None by blast
next
  show "merge_existing existing q u = merge_existing_no_reverse existing q u"
  proof (cases "try_convert q u (unit existing)")
    case (Inl e)
    then show ?thesis
      by (simp add: merge_existing_def merge_existing_no_reverse_def)
  next
    case (Inr r)
    show ?thesis
    proof (cases r)
      case None
      with Inr have "try_convert (qty existing) (unit existing) u = Inr None"
        using try_convert_reverse_None by blast
      with Inr None show ?thesis
        by (simp add: merge_existing_def merge_existing_no_reverse_def)
    next
      case (Some c)
      with Inr show ?thesis
        by (simp add: merge_existing_def merge_existing_no_reverse_def)
    qed
  qed
qed

theorem try_convert_symmetric_witness:
  "try_convert (Fin 5) (asc ''tsp'') (asc ''cup'') = Inr None
   \<and> try_convert (Fin 7) (asc ''cup'') (asc ''tsp'') = Inr None"
  using try_convert_symmetric [of "Fin 5" "asc ''tsp''" "asc ''cup''" "Fin 7"] tc_tsp_cup
  by simp

subsection \<open>The parser\<close>

lemma dropWhile_none: "\<forall>c \<in> set s. \<not> P c \<Longrightarrow> dropWhile P s = s"
  by (cases s) simp_all

lemma strip_by_none: "\<forall>c \<in> set s. \<not> P c \<Longrightarrow> strip_by P s = s"
  by (simp add: strip_by_def lstrip_by_def rstrip_by_def dropWhile_none)

lemma ascii_digit:
  assumes "48 \<le> c \<and> c \<le> 57"
  shows "decimal rt c = Some (c - 48)" "isdecimal rt c" "\<not> isspace c" "qty_char rt c"
    "c \<notin> set (map fst VULGAR_MAP)"
  using assms by (auto simp: decimal_def isdecimal_def isspace_def qty_char_def VULGAR_MAP_def)

lemma replace_absent: "old \<notin> set s \<Longrightarrow> replace old new s = s"
  by (induction s) (simp_all add: replace_def)

lemma replace_vulgar_absent:
  assumes "\<forall>c \<in> set s. c \<notin> set (map fst VULGAR_MAP)"
  shows "replace_vulgar s = s"
proof -
  have "fold (\<lambda>(vf, frac) q. replace vf frac q) m s = s" if "set (map fst m) \<subseteq> set (map fst VULGAR_MAP)" for m
    using that
  proof (induction m)
    case Nil
    then show ?case by simp
  next
    case (Cons p m)
    obtain vf frac where p: "p = (vf, frac)" by (cases p)
    with Cons.prems have "vf \<notin> set s"
      using assms by auto
    then show ?case
      using Cons by (simp add: p replace_absent)
  qed
  then show ?thesis
    by (simp add: replace_vulgar_def)
qed

lemma split_acc_none:
  "\<forall>c \<in> set s. \<not> isspace c \<Longrightarrow> split_acc cur s = (if cur @ s = [] then [] else [cur @ s])"
  by (induction s arbitrary: cur) simp_all

lemma split_none: "s \<noteq> [] \<Longrightarrow> \<forall>c \<in> set s. \<not> isspace c \<Longrightarrow> split s = [s]"
  by (simp add: Spec2Isabelle.split_def split_acc_none)

lemma QTY_RE_match_digits:
  assumes "ds \<noteq> []" and "\<forall>c \<in> set ds. 48 \<le> c \<and> c \<le> 57"
  shows "QTY_RE_match rt ds = Some (ds, [], [])"
proof -
  have sp: "dropWhile isspace ds = ds"
    using assms(2) by (intro dropWhile_none) (simp add: ascii_digit)
  have tk: "takeWhile (qty_char rt) ds = ds" and dr: "dropWhile (qty_char rt) ds = []"
    using assms(2) by (simp_all add: ascii_digit)
  show ?thesis
    using assms(1) by (simp add: QTY_RE_match_def Let_def sp tk dr)
qed

lemma Fraction_of_str_digits:
  assumes "ds \<noteq> []" and "\<forall>c \<in> set ds. 48 \<le> c \<and> c \<le> 57" and "length ds \<le> 640"
    and "digits_value rt 0 ds = Some n"
  shows "Fraction_of_str rt ds = Inr (of_nat n)"
proof -
  have tk: "takeWhile (isdecimal rt) ds = ds" and dr: "dropWhile (isdecimal rt) ds = []"
    using assms(2) by (simp_all add: ascii_digit)
  have la: "(case ds of [] \<Rightarrow> False
      | c # cs \<Rightarrow> isdecimal rt c \<or> (c = 46 \<and> cs \<noteq> [] \<and> isdecimal rt (hd cs)))"
    using assms(1,2) by (cases ds) (simp_all add: ascii_digit)
  show ?thesis
    unfolding Fraction_of_str_def Let_def tk dr
    using assms(1,3,4) la by (simp add: int_of_str_def)
qed

lemma UNIT_ALIASES_eval:
  "UNIT_ALIASES =
    [([116, 97, 98, 108, 101, 115, 112, 111, 111, 110], [116, 98, 115, 112]),
     ([116, 97, 98, 108, 101, 115, 112, 111, 111, 110, 115], [116, 98, 115, 112]),
     ([116, 98, 115, 112, 115], [116, 98, 115, 112]),
     ([116, 98, 115], [116, 98, 115, 112]),
     ([84], [116, 98, 115, 112]),
     ([116, 101, 97, 115, 112, 111, 111, 110], [116, 115, 112]),
     ([116, 101, 97, 115, 112, 111, 111, 110, 115], [116, 115, 112]),
     ([116, 115, 112, 115], [116, 115, 112]),
     ([116], [116, 115, 112]),
     ([99, 117, 112], [99, 117, 112]),
     ([99, 117, 112, 115], [99, 117, 112]),
     ([99], [99, 117, 112]),
     ([111, 117, 110, 99, 101], [111, 122]),
     ([111, 117, 110, 99, 101, 115], [111, 122]),
     ([112, 111, 117, 110, 100], [108, 98]),
     ([112, 111, 117, 110, 100, 115], [108, 98]),
     ([108, 98, 115], [108, 98]),
     ([103, 114, 97, 109], [103]),
     ([103, 114, 97, 109, 115], [103]),
     ([107, 105, 108, 111, 103, 114, 97, 109], [107, 103]),
     ([107, 105, 108, 111, 103, 114, 97, 109, 115], [107, 103]),
     ([109, 105, 108, 108, 105, 108, 105, 116, 101, 114], [109, 108]),
     ([109, 105, 108, 108, 105, 108, 105, 116, 101, 114, 115], [109, 108]),
     ([109, 105, 108, 108, 105, 108, 105, 116, 114, 101, 115], [109, 108]),
     ([108, 105, 116, 101, 114], [108]),
     ([108, 105, 116, 101, 114, 115], [108]),
     ([108, 105, 116, 114, 101, 115], [108]),
     ([108, 105, 116, 114, 101], [108]),
     ([112, 105, 110, 99, 104], [112, 105, 110, 99, 104]),
     ([112, 105, 110, 99, 104, 101, 115], [112, 105, 110, 99, 104]),
     ([99, 108, 111, 118, 101], [99, 108, 111, 118, 101]),
     ([99, 108, 111, 118, 101, 115], [99, 108, 111, 118, 101]),
     ([99, 97, 110], [99, 97, 110]),
     ([99, 97, 110, 115], [99, 97, 110]),
     ([98, 117, 110, 99, 104], [98, 117, 110, 99, 104]),
     ([98, 117, 110, 99, 104, 101, 115], [98, 117, 110, 99, 104]),
     ([115, 108, 105, 99, 101], [115, 108, 105, 99, 101]),
     ([115, 108, 105, 99, 101, 115], [115, 108, 105, 99, 101]),
     ([112, 105, 101, 99, 101], [112, 105, 101, 99, 101]),
     ([112, 105, 101, 99, 101, 115], [112, 105, 101, 99, 101])]"
  by (simp add: UNIT_ALIASES_def asc_def)

lemma VULGAR_MAP_eval:
  "VULGAR_MAP =
    [(189, [49, 47, 50]),
     (8531, [49, 47, 51]),
     (8532, [50, 47, 51]),
     (188, [49, 47, 52]),
     (190, [51, 47, 52]),
     (8533, [49, 47, 53]),
     (8534, [50, 47, 53]),
     (8535, [51, 47, 53]),
     (8536, [52, 47, 53]),
     (8537, [49, 47, 54]),
     (8538, [53, 47, 54]),
     (8539, [49, 47, 56]),
     (8540, [51, 47, 56]),
     (8541, [53, 47, 56]),
     (8542, [55, 47, 56])]"
  by (simp add: VULGAR_MAP_def asc_def)

lemma normalize_unit_Nil: "normalize_unit rt [] = []"
  by (simp add: normalize_unit_def UNIT_ALIASES_eval lower_def)

lemma parse_quantity_digits:
  assumes "ds \<noteq> []" and "\<forall>c \<in> set ds. 48 \<le> c \<and> c \<le> 57" and "length ds \<le> 640"
    and "digits_value rt 0 ds = Some n"
  shows "parse_quantity rt ds =
    (case float_of_Fraction (of_nat n) of Inl e \<Rightarrow> Inl e | Inr q \<Rightarrow> Inr (q, [], []))"
proof -
  have ns: "\<forall>c \<in> set ds. \<not> isspace c"
    using assms(2) by (simp add: ascii_digit)
  have ng: "\<forall>c \<in> set ds. c \<notin> set (map fst VULGAR_MAP)"
    using assms(2) ascii_digit(5) by blast
  have st: "strip ds = ds"
    using ns by (simp add: strip_def strip_by_none)
  have ev: "eval_qty rt ds = float_of_Fraction (of_nat n)"
    using assms by (simp add: eval_qty_def split_none [OF assms(1) ns] Fraction_of_str_digits)
  have em: "strip [] = []" "rstrip_chars cs [] = []" "strip_chars cs [] = []" for cs
    by (simp_all add: strip_def strip_chars_def rstrip_chars_def strip_by_def lstrip_by_def
        rstrip_by_def)
  have "parse_quantity rt ds =
    (case eval_qty rt ds of
       Inl e \<Rightarrow> if e = ValueError \<or> e = ZeroDivisionError then Inr (Fin 0, [], ds) else Inl e
     | Inr q \<Rightarrow> Inr (q, [], []))"
    unfolding parse_quantity_def st QTY_RE_match_digits [OF assms(1,2)]
    by (simp add: Let_def st em replace_vulgar_absent [OF ng] normalize_unit_Nil split: sum.split)
  also have "\<dots> = (case float_of_Fraction (of_nat n) of Inl e \<Rightarrow> Inl e | Inr q \<Rightarrow> Inr (q, [], []))"
    unfolding ev by (simp add: float_of_Fraction_def split: pyfloat.split)
  finally show ?thesis .
qed

lemma digits_value_zeros: "digits_value rt acc (replicate k 48) = Some (acc * 10 ^ k)"
  by (induction k arbitrary: acc) (simp_all add: decimal_def)

lemma rb_1_2: "round_binary64 (1 / 2) = Fin (1 / 2)"
  by (rule round_binary64_exact [where e = "- 1" and m = "2 ^ 52"]) simp_all

lemma rb_200: "round_binary64 200 = Fin 200"
  by (rule round_binary64_exact [where e = 7 and m = "200 * 2 ^ 45"]) simp_all

lemmas parse_defs = parse_quantity_def QTY_RE_match_def strip_def strip_by_def lstrip_by_def
  rstrip_by_def isspace_def strip_chars_def rstrip_chars_def qty_char_def unit_char_def
  isdecimal_def decimal_def VULGAR_MAP_eval replace_vulgar_def replace_def eval_qty_def
  Spec2Isabelle.split_def Fraction_of_str_def int_of_str_def float_of_Fraction_def
  normalize_unit_def UNIT_ALIASES_eval lower_def ascii_lower_def asc_def Let_def

lemma parse_tbsp_oil:
  "parse_quantity rt (asc ''1 tbsp olive oil'') = Inr (Fin 1, asc ''tbsp'', asc ''olive oil'')"
  by (simp add: parse_defs rb_1)

lemma parse_tsp_oil:
  "parse_quantity rt (asc ''2 tsp olive oil'') = Inr (Fin 2, asc ''tsp'', asc ''olive oil'')"
  by (simp add: parse_defs rb_2)

lemma parse_cup_flour:
  "parse_quantity rt (asc ''1 cup flour'') = Inr (Fin 1, asc ''cup'', asc ''flour'')"
  by (simp add: parse_defs rb_1)

lemma parse_g_flour:
  "parse_quantity rt (asc ''200 g flour'') = Inr (Fin 200, asc ''g'', asc ''flour'')"
  by (simp add: parse_defs rb_200)

lemma parse_glyph_sugar:
  "parse_quantity rt (189 # asc '' cup sugar'') = Inr (Fin (1 / 2), asc ''cup'', asc ''sugar'')"
  by (simp add: parse_defs rb_1_2)

lemma parse_half_sugar:
  "parse_quantity rt (asc ''1/2 cup sugar'') = Inr (Fin (1 / 2), asc ''cup'', asc ''sugar'')"
  by (simp add: parse_defs rb_1_2)

lemma parse_compound_flour:
  "parse_quantity rt (asc ''1 1/2 cups flour'') = Inr (Fin (3 / 2), asc ''cup'', asc ''flour'')"
  by (simp add: parse_defs rb_3_2)

lemma parse_two: "parse_quantity rt (asc ''2'') = Inr (Fin 2, [], [])"
  by (simp add: parse_defs rb_2)

text \<open>The only exception that leaves the parser is the one its \<^verbatim>\<open>except\<close> clause misses.\<close>

lemma parse_quantity_error: "parse_quantity rt s = Inl e \<Longrightarrow> e = OverflowError"
  by (cases e) (auto simp: parse_quantity_def Let_def split: option.splits sum.splits if_splits)

text \<open>
  C1 (the code departs from it). The claim: the parser returns a parsed quantity for every
  line and never raises; a quantity token that cannot be evaluated gives the degraded result.
  The \<^verbatim>\<open>except\<close> clause names \<^verbatim>\<open>ValueError\<close> and \<^verbatim>\<open>ZeroDivisionError\<close> only: on the line
  made of 1 and 309 zeros every part is a fraction, and the conversion of their sum to a
  float raises \<^verbatim>\<open>OverflowError\<close>, which leaves the function.
\<close>

theorem parse_quantity_overflow:
  "parse_quantity rt (49 # replicate 309 48) = Inl OverflowError"
proof -
  have "digits_value rt 0 (49 # replicate 309 48) = Some (10 ^ 309)"
    by (simp add: decimal_def digits_value_zeros)
  moreover have "\<forall>c \<in> set (49 # replicate 309 (48::nat)). 48 \<le> c \<and> c \<le> 57"
    by simp
  ultimately have "parse_quantity rt (49 # replicate 309 48) =
    (case float_of_Fraction (of_nat (10 ^ 309)) of Inl e \<Rightarrow> Inl e | Inr q \<Rightarrow> Inr (q, [], []))"
    by (intro parse_quantity_digits) simp_all
  then show ?thesis
    using float_overflow by simp
qed

subsection \<open>The aggregator: one line\<close>

lemmas key_defs = line_key_def lower_def ascii_lower_def strip_def strip_by_def lstrip_by_def
  rstrip_by_def isspace_def asc_def

lemma key_oil: "line_key rt (asc ''olive oil'') = asc ''olive oil''"
  by (simp add: key_defs)

lemma key_flour: "line_key rt (asc ''flour'') = asc ''flour''"
  by (simp add: key_defs)

lemma key_Nil: "line_key rt [] = []"
  by (simp add: key_defs)

lemma add_line_existing:
  assumes "parse_quantity rt line = Inr (q, u, nm)" and "line_key rt nm \<noteq> []"
    and "map_of merged (line_key rt nm) = Some ex" and "merge_existing ex q u = Inr ex'"
  shows "add_line rt merged line =
    Inr (AList.update (line_key rt nm) (ex'\<lparr>raw_sources := raw_sources ex' @ [line]\<rparr>) merged)"
  using assms by (simp add: add_line_def Let_def)

lemma add_line_new:
  assumes "parse_quantity rt line = Inr (q, u, nm)" and "line_key rt nm \<noteq> []"
    and "map_of merged (line_key rt nm) = None"
  shows "add_line rt merged line =
    Inr (AList.update (line_key rt nm) \<lparr>name = nm, qty = q, unit = u, raw_sources = [line]\<rparr> merged)"
  using assms by (simp add: add_line_def Let_def)

lemma add_line_skip:
  assumes "parse_quantity rt line = Inr (q, u, nm)" and "line_key rt nm = []"
  shows "add_line rt merged line = Inr merged"
  using assms by (simp add: add_line_def Let_def)

lemma merge_existing_convertible:
  assumes "u \<noteq> []" "unit ex \<noteq> []" "try_convert q u (unit ex) = Inr (Some c)"
  shows "merge_existing ex q u = Inr (ex\<lparr>qty := fadd (qty ex) c\<rparr>)"
  using assms by (simp add: merge_existing_def)

lemma merge_existing_composite:
  assumes "u \<noteq> []" "unit ex \<noteq> []" "try_convert q u (unit ex) = Inr None"
  shows "merge_existing ex q u =
    Inr (ex\<lparr>qty := fadd (qty ex) q, unit := unit ex @ [43] @ u\<rparr>)"
proof -
  have "try_convert (qty ex) (unit ex) u = Inr None"
    using assms(3) by (rule try_convert_reverse_None)
  moreover have "u \<noteq> unit ex"
    using assms(3) by (auto simp: try_convert_None_iff)
  ultimately show ?thesis
    using assms by (simp add: merge_existing_def)
qed

lemma tc_oil: "try_convert (Fin 2) (asc ''tsp'') (asc ''tbsp'') = Inr (Some (Fin (6004799503160661 / 9007199254740992)))"
  by (simp add: try_convert_def CONVERTIBLE_eval asc_def rb_2_3)

lemma tc_flour: "try_convert (Fin 200) (asc ''g'') (asc ''cup'') = Inr None"
  by (simp add: try_convert_def CONVERTIBLE_eval asc_def)

lemma asc_ne: "asc ''tsp'' \<noteq> []" "asc ''tbsp'' \<noteq> []" "asc ''olive oil'' \<noteq> []" "asc ''flour'' \<noteq> []"
  "asc ''g'' \<noteq> []" "asc ''cup'' \<noteq> []"
  by (simp_all add: asc_def)

lemma fadd_oil:
  "fadd (Fin 1) (Fin (6004799503160661 / 9007199254740992)) =
     Fin (3752999689475413 / 2251799813685248)"
  using rb_5_3 by simp

lemma fadd_flour: "fadd (Fin 1) (Fin 200) = Fin 201"
  by (simp add: rb_201)

lemma combine_oil:
  "combine_ingredients rt [\<lparr>ingredients = Some [asc ''1 tbsp olive oil'', asc ''2 tsp olive oil'']\<rparr>] =
     Inr [\<lparr>name = asc ''olive oil'', qty = Fin (3752999689475413 / 2251799813685248),
           unit = asc ''tbsp'',
           raw_sources = [asc ''1 tbsp olive oil'', asc ''2 tsp olive oil'']\<rparr>]"
proof -
  let ?i1 = "\<lparr>name = asc ''olive oil'', qty = Fin 1, unit = asc ''tbsp'',
    raw_sources = [asc ''1 tbsp olive oil'']\<rparr>"
  have 1: "add_line rt [] (asc ''1 tbsp olive oil'') = Inr [(asc ''olive oil'', ?i1)]"
    using add_line_new [OF parse_tbsp_oil, of rt "[]"] by (simp add: key_oil asc_ne)
  have m: "merge_existing ?i1 (Fin 2) (asc ''tsp'') =
      Inr (?i1\<lparr>qty := fadd (qty ?i1) (Fin (6004799503160661 / 9007199254740992))\<rparr>)"
    by (rule merge_existing_convertible) (simp_all add: asc_ne tc_oil)
  have 2: "add_line rt [(asc ''olive oil'', ?i1)] (asc ''2 tsp olive oil'') =
      Inr [(asc ''olive oil'', \<lparr>name = asc ''olive oil'',
        qty = Fin (3752999689475413 / 2251799813685248), unit = asc ''tbsp'',
        raw_sources = [asc ''1 tbsp olive oil'', asc ''2 tsp olive oil'']\<rparr>)]"
    using add_line_existing [OF parse_tsp_oil _ _ m, of rt "[(asc ''olive oil'', ?i1)]"]
    by (simp add: key_oil asc_ne fadd_oil del: fadd.simps)
  show ?thesis
    by (simp add: combine_ingredients_def 1 2)
qed


lemma combine_flour:
  "combine_ingredients rt [\<lparr>ingredients = Some [asc ''1 cup flour'', asc ''200 g flour'']\<rparr>] =
     Inr [\<lparr>name = asc ''flour'', qty = Fin 201, unit = asc ''cup+g'',
           raw_sources = [asc ''1 cup flour'', asc ''200 g flour'']\<rparr>]"
proof -
  let ?i1 = "\<lparr>name = asc ''flour'', qty = Fin 1, unit = asc ''cup'',
    raw_sources = [asc ''1 cup flour'']\<rparr>"
  have 1: "add_line rt [] (asc ''1 cup flour'') = Inr [(asc ''flour'', ?i1)]"
    using add_line_new [OF parse_cup_flour, of rt "[]"] by (simp add: key_flour asc_ne)
  have m: "merge_existing ?i1 (Fin 200) (asc ''g'') =
      Inr (?i1\<lparr>qty := fadd (qty ?i1) (Fin 200), unit := unit ?i1 @ [43] @ asc ''g''\<rparr>)"
    by (rule merge_existing_composite) (simp_all add: asc_ne tc_flour)
  have u: "asc ''cup'' @ 43 # asc ''g'' = asc ''cup+g''"
    by (simp add: asc_def)
  have 2: "add_line rt [(asc ''flour'', ?i1)] (asc ''200 g flour'') =
      Inr [(asc ''flour'', \<lparr>name = asc ''flour'', qty = Fin 201, unit = asc ''cup+g'',
        raw_sources = [asc ''1 cup flour'', asc ''200 g flour'']\<rparr>)]"
    using add_line_existing [OF parse_g_flour _ _ m, of rt "[(asc ''flour'', ?i1)]"]
    by (simp add: key_flour asc_ne fadd_flour u del: fadd.simps)
  show ?thesis
    by (simp add: combine_ingredients_def 1 2)
qed

lemma combine_two: "combine_ingredients rt [\<lparr>ingredients = Some [asc ''2'']\<rparr>] = Inr []"
  using add_line_skip [OF parse_two, of rt "[]"] by (simp add: combine_ingredients_def key_Nil)

text \<open>
  C4. When the key of a parsed line is already in \<^verbatim>\<open>merged\<close>, both units are non-empty and
  the new amount converts into the unit of the item, the converted amount is added to the
  quantity of the item and its unit stays (the line is appended to its sources). The lines
  \<^verbatim>\<open>1 tbsp olive oil\<close> and \<^verbatim>\<open>2 tsp olive oil\<close> of one recipe give one item, olive oil,
  in tbsp, whose quantity is the float sum of 1 and 2 / 3, which is 1.6666666666666665.
\<close>

theorem merge_convertible_units:
  "(parse_quantity rt line = Inr (q, u, nm) \<and> line_key rt nm \<noteq> []
      \<and> map_of merged (line_key rt nm) = Some ex
      \<and> u \<noteq> [] \<and> unit ex \<noteq> [] \<and> try_convert q u (unit ex) = Inr (Some c)
    \<longrightarrow> add_line rt merged line =
          Inr (AList.update (line_key rt nm)
                 (ex\<lparr>qty := fadd (qty ex) c, raw_sources := raw_sources ex @ [line]\<rparr>) merged))
   \<and> combine_ingredients rt
         [\<lparr>ingredients = Some [asc ''1 tbsp olive oil'', asc ''2 tsp olive oil'']\<rparr>] =
       Inr [\<lparr>name = asc ''olive oil'', qty = Fin (3752999689475413 / 2251799813685248),
             unit = asc ''tbsp'',
             raw_sources = [asc ''1 tbsp olive oil'', asc ''2 tsp olive oil'']\<rparr>]
   \<and> fdiv (Fin 2) (Fin 3) = Inr (Fin (6004799503160661 / 9007199254740992))
   \<and> fadd (Fin 1) (Fin (6004799503160661 / 9007199254740992)) =
       Fin (3752999689475413 / 2251799813685248)"
proof (intro conjI impI)
  assume h: "parse_quantity rt line = Inr (q, u, nm) \<and> line_key rt nm \<noteq> []
      \<and> map_of merged (line_key rt nm) = Some ex
      \<and> u \<noteq> [] \<and> unit ex \<noteq> [] \<and> try_convert q u (unit ex) = Inr (Some c)"
  then have "merge_existing ex q u = Inr (ex\<lparr>qty := fadd (qty ex) c\<rparr>)"
    by (intro merge_existing_convertible) simp_all
  with h show "add_line rt merged line =
      Inr (AList.update (line_key rt nm)
             (ex\<lparr>qty := fadd (qty ex) c, raw_sources := raw_sources ex @ [line]\<rparr>) merged)"
    by (simp add: add_line_existing [where q = q and u = u and nm = nm and ex = ex])
next
  show "fdiv (Fin 2) (Fin 3) = Inr (Fin (6004799503160661 / 9007199254740992))"
    by (simp add: rb_2_3)
qed (rule combine_oil fadd_oil)+

theorem merge_convertible_units_witness:
  "parse_quantity ascii_runtime (asc ''2 tsp olive oil'') =
     Inr (Fin 2, asc ''tsp'', asc ''olive oil'')
   \<and> line_key ascii_runtime (asc ''olive oil'') \<noteq> []
   \<and> map_of [(asc ''olive oil'', \<lparr>name = asc ''olive oil'', qty = Fin 1, unit = asc ''tbsp'',
        raw_sources = [asc ''1 tbsp olive oil'']\<rparr>)] (line_key ascii_runtime (asc ''olive oil'')) =
      Some \<lparr>name = asc ''olive oil'', qty = Fin 1, unit = asc ''tbsp'',
        raw_sources = [asc ''1 tbsp olive oil'']\<rparr>
   \<and> try_convert (Fin 2) (asc ''tsp'') (asc ''tbsp'') =
      Inr (Some (Fin (6004799503160661 / 9007199254740992)))
   \<and> add_line ascii_runtime
        [(asc ''olive oil'', \<lparr>name = asc ''olive oil'', qty = Fin 1, unit = asc ''tbsp'',
          raw_sources = [asc ''1 tbsp olive oil'']\<rparr>)] (asc ''2 tsp olive oil'') =
      Inr [(asc ''olive oil'', \<lparr>name = asc ''olive oil'',
        qty = Fin (3752999689475413 / 2251799813685248), unit = asc ''tbsp'',
        raw_sources = [asc ''1 tbsp olive oil'', asc ''2 tsp olive oil'']\<rparr>)]"
  using merge_convertible_units [of ascii_runtime "asc ''2 tsp olive oil''" "Fin 2" "asc ''tsp''"
      "asc ''olive oil''"
      "[(asc ''olive oil'', \<lparr>name = asc ''olive oil'', qty = Fin 1, unit = asc ''tbsp'',
          raw_sources = [asc ''1 tbsp olive oil'']\<rparr>)]"
      "\<lparr>name = asc ''olive oil'', qty = Fin 1, unit = asc ''tbsp'',
          raw_sources = [asc ''1 tbsp olive oil'']\<rparr>"
      "Fin (6004799503160661 / 9007199254740992)"]
  by (simp add: parse_tsp_oil key_oil asc_ne tc_oil fadd_oil del: fadd.simps fdiv.simps)

text \<open>
  C5. When the key of a parsed line is already in \<^verbatim>\<open>merged\<close>, both units are non-empty and
  the conversion fails in both directions, the two magnitudes are added as they are and,
  the units being different, the unit becomes the unit of the item, a plus sign and the new
  unit. The lines \<^verbatim>\<open>1 cup flour\<close> and \<^verbatim>\<open>200 g flour\<close> give one item of quantity 201 and
  unit \<^verbatim>\<open>cup+g\<close>.
\<close>

theorem merge_incompatible_units:
  "(parse_quantity rt line = Inr (q, u, nm) \<and> line_key rt nm \<noteq> []
      \<and> map_of merged (line_key rt nm) = Some ex
      \<and> u \<noteq> [] \<and> unit ex \<noteq> [] \<and> try_convert q u (unit ex) = Inr None
      \<and> try_convert (qty ex) (unit ex) u = Inr None
    \<longrightarrow> add_line rt merged line =
          Inr (AList.update (line_key rt nm)
                 (ex\<lparr>qty := fadd (qty ex) q,
                     unit := (if u \<noteq> unit ex then unit ex @ [43] @ u else unit ex),
                     raw_sources := raw_sources ex @ [line]\<rparr>) merged))
   \<and> combine_ingredients rt
         [\<lparr>ingredients = Some [asc ''1 cup flour'', asc ''200 g flour'']\<rparr>] =
       Inr [\<lparr>name = asc ''flour'', qty = Fin 201, unit = asc ''cup+g'',
             raw_sources = [asc ''1 cup flour'', asc ''200 g flour'']\<rparr>]"
proof (intro conjI impI)
  assume h: "parse_quantity rt line = Inr (q, u, nm) \<and> line_key rt nm \<noteq> []
      \<and> map_of merged (line_key rt nm) = Some ex
      \<and> u \<noteq> [] \<and> unit ex \<noteq> [] \<and> try_convert q u (unit ex) = Inr None
      \<and> try_convert (qty ex) (unit ex) u = Inr None"
  then have "merge_existing ex q u =
      Inr (ex\<lparr>qty := fadd (qty ex) q,
              unit := (if u \<noteq> unit ex then unit ex @ [43] @ u else unit ex)\<rparr>)"
    by (simp add: merge_existing_def)
  with h show "add_line rt merged line =
      Inr (AList.update (line_key rt nm)
             (ex\<lparr>qty := fadd (qty ex) q,
                 unit := (if u \<noteq> unit ex then unit ex @ [43] @ u else unit ex),
                 raw_sources := raw_sources ex @ [line]\<rparr>) merged)"
    by (simp add: add_line_existing [where q = q and u = u and nm = nm and ex = ex])
qed (rule combine_flour)

theorem merge_incompatible_units_witness:
  "parse_quantity ascii_runtime (asc ''200 g flour'') = Inr (Fin 200, asc ''g'', asc ''flour'')
   \<and> line_key ascii_runtime (asc ''flour'') \<noteq> []
   \<and> map_of [(asc ''flour'', \<lparr>name = asc ''flour'', qty = Fin 1, unit = asc ''cup'',
        raw_sources = [asc ''1 cup flour'']\<rparr>)] (line_key ascii_runtime (asc ''flour'')) =
      Some \<lparr>name = asc ''flour'', qty = Fin 1, unit = asc ''cup'',
        raw_sources = [asc ''1 cup flour'']\<rparr>
   \<and> try_convert (Fin 200) (asc ''g'') (asc ''cup'') = Inr None
   \<and> try_convert (Fin 1) (asc ''cup'') (asc ''g'') = Inr None
   \<and> add_line ascii_runtime
        [(asc ''flour'', \<lparr>name = asc ''flour'', qty = Fin 1, unit = asc ''cup'',
          raw_sources = [asc ''1 cup flour'']\<rparr>)] (asc ''200 g flour'') =
      Inr [(asc ''flour'', \<lparr>name = asc ''flour'', qty = Fin 201, unit = asc ''cup+g'',
        raw_sources = [asc ''1 cup flour'', asc ''200 g flour'']\<rparr>)]"
proof -
  have r: "try_convert (Fin 1) (asc ''cup'') (asc ''g'') = Inr None"
    using tc_flour by (rule try_convert_reverse_None)
  have u: "asc ''cup'' @ 43 # asc ''g'' = asc ''cup+g''" "asc ''g'' \<noteq> asc ''cup''"
    by (simp_all add: asc_def)
  show ?thesis
    using merge_incompatible_units [of ascii_runtime "asc ''200 g flour''" "Fin 200" "asc ''g''"
        "asc ''flour''"
        "[(asc ''flour'', \<lparr>name = asc ''flour'', qty = Fin 1, unit = asc ''cup'',
            raw_sources = [asc ''1 cup flour'']\<rparr>)]"
        "\<lparr>name = asc ''flour'', qty = Fin 1, unit = asc ''cup'',
            raw_sources = [asc ''1 cup flour'']\<rparr>"]
    by (simp add: parse_g_flour key_flour asc_ne tc_flour r u fadd_flour del: fadd.simps)
qed

subsection \<open>The aggregator: all lines\<close>

lemma merge_existing_total:
  "\<exists>ex'. merge_existing ex q u = Inr ex' \<and> name ex' = name ex \<and> raw_sources ex' = raw_sources ex"
proof (cases "try_convert q u (unit ex)")
  case (Inl e)
  then show ?thesis
    using try_convert_no_error by blast
next
  case (Inr r)
  show ?thesis
  proof (cases r)
    case None
    with Inr have "try_convert (qty ex) (unit ex) u = Inr None"
      using try_convert_reverse_None by blast
    with Inr None show ?thesis
      by (simp add: merge_existing_def)
  next
    case (Some c)
    with Inr show ?thesis
      by (simp add: merge_existing_def)
  qed
qed

lemma add_line_error: "add_line rt merged line = Inl e \<longleftrightarrow> parse_quantity rt line = Inl e"
proof (cases "parse_quantity rt line")
  case (Inl e')
  then show ?thesis
    by (simp add: add_line_def)
next
  case (Inr p)
  obtain q u nm where p: "p = (q, u, nm)"
    by (cases p)
  show ?thesis
  proof (cases "map_of merged (line_key rt nm)")
    case None
    with Inr p show ?thesis
      by (simp add: add_line_def Let_def)
  next
    case (Some ex)
    obtain ex' where "merge_existing ex q u = Inr ex'"
      using merge_existing_total by blast
    with Inr p Some show ?thesis
      by (simp add: add_line_def Let_def)
  qed
qed

lemma add_line_result:
  assumes "parse_quantity rt line = Inr (q, u, nm)"
  shows "\<exists>it. add_line rt merged line =
           Inr (if line_key rt nm = [] then merged else AList.update (line_key rt nm) it merged)
       \<and> name it = (case map_of merged (line_key rt nm) of Some ex \<Rightarrow> name ex | None \<Rightarrow> nm)
       \<and> raw_sources it =
           (case map_of merged (line_key rt nm) of Some ex \<Rightarrow> raw_sources ex | None \<Rightarrow> []) @ [line]"
proof (cases "map_of merged (line_key rt nm)")
  case None
  with assms show ?thesis
    by (intro exI [of _ "\<lparr>name = nm, qty = q, unit = u, raw_sources = [line]\<rparr>"])
      (simp add: add_line_def Let_def)
next
  case (Some ex)
  obtain ex' where ex': "merge_existing ex q u = Inr ex'" "name ex' = name ex"
      "raw_sources ex' = raw_sources ex"
    using merge_existing_total by blast
  from assms Some ex' show ?thesis
    by (intro exI [of _ "ex'\<lparr>raw_sources := raw_sources ex' @ [line]\<rparr>"])
      (simp add: add_line_def Let_def)
qed

lemma find_snoc:
  "find P (xs @ [y]) =
     (case find P xs of Some x \<Rightarrow> Some x | None \<Rightarrow> if P y then Some y else None)"
  by (induction xs) simp_all

lemma merged_inv_step:
  assumes inv: "merged_inv rt seen merged" and step: "add_line rt merged line = Inr merged'"
  shows "merged_inv rt (seen @ [line]) merged'"
proof -
  obtain q u nm where p: "parse_quantity rt line = Inr (q, u, nm)"
    using step add_line_error [of rt merged line]
    by (cases "parse_quantity rt line") auto
  define k where "k = line_key rt nm"
  have kl: "key_of rt line = Some k" and nl: "name_of rt line = Some nm"
    by (simp_all add: key_of_def name_of_def p k_def)
  obtain it where it: "merged' = (if k = [] then merged else AList.update k it merged)"
    and nm: "name it = (case map_of merged k of Some ex \<Rightarrow> name ex | None \<Rightarrow> nm)"
    and rs: "raw_sources it =
      (case map_of merged k of Some ex \<Rightarrow> raw_sources ex | None \<Rightarrow> []) @ [line]"
    using add_line_result [OF p, of merged] step unfolding k_def by auto
  have d: "distinct (map fst merged)"
    and ks: "\<And>k. k \<in> fst ` set merged \<longleftrightarrow> k \<noteq> [] \<and> Some k \<in> key_of rt ` set seen"
    and fs: "\<And>k it. map_of merged k = Some it \<Longrightarrow>
      raw_sources it = filter (\<lambda>l. key_of rt l = Some k) seen
      \<and> (\<exists>l. find (\<lambda>l. key_of rt l = Some k) seen = Some l \<and> name_of rt l = Some (name it))"
    using inv by (auto simp: merged_inv_def)
  show ?thesis
  proof (cases "k = []")
    case True
    then have m: "merged' = merged"
      by (simp add: it)
    have "k' \<noteq> k" if "map_of merged k' = Some v" for k' v
    proof -
      from that have "k' \<in> fst ` set merged"
        by (metis domI dom_map_of_conv_image_fst)
      with ks True show ?thesis by auto
    qed
    then have "\<And>k' v. map_of merged k' = Some v \<Longrightarrow>
      filter (\<lambda>l. key_of rt l = Some k') (seen @ [line]) = filter (\<lambda>l. key_of rt l = Some k') seen
      \<and> find (\<lambda>l. key_of rt l = Some k') (seen @ [line]) = find (\<lambda>l. key_of rt l = Some k') seen"
      using fs by (auto simp: kl find_snoc split: option.split)
    then show ?thesis
      unfolding merged_inv_def m using d ks fs True kl by (auto simp: image_Un)
  next
    case False
    then have m: "merged' = AList.update k it merged"
      by (simp add: it)
    have mo: "map_of merged' = (map_of merged)(k \<mapsto> it)"
      by (simp add: m update_conv')
    have 1: "distinct (map fst merged')"
      using d by (simp add: m distinct_update)
    have 2: "k' \<in> fst ` set merged' \<longleftrightarrow> k' \<noteq> [] \<and> Some k' \<in> key_of rt ` set (seen @ [line])" for k'
    proof -
      have "fst ` set merged' = insert k (fst ` set merged)"
        by (metis dom_map_of_conv_image_fst dom_fun_upd mo option.discI)
      then show ?thesis
        using ks [of k'] False kl by (auto simp: image_Un)
    qed
    have 3: "raw_sources v = filter (\<lambda>l. key_of rt l = Some k') (seen @ [line])
      \<and> (\<exists>l. find (\<lambda>l. key_of rt l = Some k') (seen @ [line]) = Some l
             \<and> name_of rt l = Some (name v))" if v: "map_of merged' k' = Some v" for k' v
    proof (cases "k' = k")
      case kk: True
      then have vi: "v = it"
        using v by (simp add: mo)
      show ?thesis
      proof (cases "map_of merged k")
        case None
        then have "k \<notin> fst ` set merged"
          by (metis domIff dom_map_of_conv_image_fst)
        then have "Some k \<notin> key_of rt ` set seen"
          using ks [of k] False by simp
        then have "\<forall>l \<in> set seen. key_of rt l \<noteq> Some k"
          by (metis imageI)
        then have "filter (\<lambda>l. key_of rt l = Some k) seen = []"
          and "find (\<lambda>l. key_of rt l = Some k) seen = None"
          by (simp_all add: find_None_iff)
        then show ?thesis
          using None by (simp add: kk vi nm rs kl nl find_snoc)
      next
        case (Some ex)
        from fs [OF Some] show ?thesis
          using Some by (auto simp add: kk vi nm rs kl find_snoc)
      qed
    next
      case kk: False
      then have "map_of merged k' = Some v"
        using v by (simp add: mo)
      from fs [OF this] show ?thesis
        using kk by (auto simp add: kl find_snoc)
    qed
    show ?thesis
      unfolding merged_inv_def using 1 2 3 by blast
  qed
qed


lemma merged_inv_lines:
  "merged_inv rt seen m \<Longrightarrow> add_lines rt m ls = Inr m' \<Longrightarrow> merged_inv rt (seen @ ls) m'"
proof (induction ls arbitrary: seen m)
  case Nil
  then show ?case by simp
next
  case (Cons l ls)
  from Cons.prems(2) obtain m1 where m1: "add_line rt m l = Inr m1" "add_lines rt m1 ls = Inr m'"
    by (auto split: sum.splits)
  have "merged_inv rt (seen @ [l]) m1"
    using Cons.prems(1) m1(1) by (rule merged_inv_step)
  from Cons.IH [OF this m1(2)] show ?case
    by simp
qed

lemma merged_inv_recipes:
  "merged_inv rt seen m \<Longrightarrow> add_recipes rt m rs = Inr m' \<Longrightarrow>
     merged_inv rt (seen @ all_lines rs) m'"
proof (induction rs arbitrary: seen m)
  case Nil
  then show ?case by (simp add: all_lines_def)
next
  case (Cons r rs)
  let ?ls = "case ingredients r of None \<Rightarrow> [] | Some ls \<Rightarrow> ls"
  from Cons.prems(2) obtain m1 where m1: "add_lines rt m ?ls = Inr m1" "add_recipes rt m1 rs = Inr m'"
    by (auto split: sum.splits)
  have "merged_inv rt (seen @ ?ls) m1"
    using Cons.prems(1) m1(1) by (rule merged_inv_lines)
  from Cons.IH [OF this m1(2)] show ?case
    by (simp add: all_lines_def)
qed

lemma add_lines_returns:
  "(\<exists>m'. add_lines rt m ls = Inr m') \<longleftrightarrow> (\<forall>l \<in> set ls. \<forall>e. parse_quantity rt l \<noteq> Inl e)"
proof (induction ls arbitrary: m)
  case Nil
  then show ?case by simp
next
  case (Cons l ls)
  show ?case
  proof (cases "add_line rt m l")
    case (Inl e)
    then show ?thesis
      using add_line_error [of rt m l e] by auto
  next
    case (Inr m1)
    then have "\<forall>e. parse_quantity rt l \<noteq> Inl e"
      using add_line_error [of rt m l] by auto
    with Inr Cons.IH [of m1] show ?thesis
      by simp
  qed
qed

lemma add_recipes_returns:
  "(\<exists>m'. add_recipes rt m rs = Inr m') \<longleftrightarrow>
     (\<forall>l \<in> set (all_lines rs). \<forall>e. parse_quantity rt l \<noteq> Inl e)"
proof (induction rs arbitrary: m)
  case Nil
  then show ?case by (simp add: all_lines_def)
next
  case (Cons r rs)
  let ?ls = "case ingredients r of None \<Rightarrow> [] | Some ls \<Rightarrow> ls"
  have al: "all_lines (r # rs) = ?ls @ all_lines rs"
    by (simp add: all_lines_def)
  show ?case
  proof (cases "add_lines rt m ?ls")
    case (Inl e)
    then have "\<not> (\<exists>m'. add_lines rt m ?ls = Inr m')"
      by simp
    then have "\<not> (\<forall>l \<in> set ?ls. \<forall>e. parse_quantity rt l \<noteq> Inl e)"
      unfolding add_lines_returns .
    with Inl show ?thesis
      by (auto simp: al)
  next
    case (Inr m1)
    then have "\<exists>m'. add_lines rt m ?ls = Inr m'"
      by simp
    then have "\<forall>l \<in> set ?ls. \<forall>e. parse_quantity rt l \<noteq> Inl e"
      unfolding add_lines_returns .
    with Inr Cons.IH [of m1] show ?thesis
      by (auto simp: al)
  qed
qed

lemma merged_inv_empty: "merged_inv rt [] []"
  by (simp add: merged_inv_def)

lemma combine_returns:
  "(\<exists>out. combine_ingredients rt rs = Inr out) \<longleftrightarrow>
     (\<forall>l \<in> set (all_lines rs). \<forall>e. parse_quantity rt l \<noteq> Inl e)"
  unfolding add_recipes_returns [of rt "[]" rs, symmetric]
  by (auto simp: combine_ingredients_def split: sum.splits)

lemma combine_merged:
  assumes "combine_ingredients rt rs = Inr out"
  obtains merged where "merged_inv rt (all_lines rs) merged"
    and "out = sort_key (\<lambda>x. lower rt (name x)) (map snd merged)"
proof -
  from assms obtain merged where m: "add_recipes rt [] rs = Inr merged"
    and out: "out = sort_key (\<lambda>x. lower rt (name x)) (map snd merged)"
    by (auto simp: combine_ingredients_def split: sum.splits)
  have "merged_inv rt ([] @ all_lines rs) merged"
    using merged_inv_empty m by (rule merged_inv_recipes)
  with out that show ?thesis
    by simp
qed

text \<open>What the invariant says of an entry of \<open>merged\<close>.\<close>

lemma merged_inv_entry:
  assumes inv: "merged_inv rt seen merged" and kv: "(k, it) \<in> set merged"
  shows "k \<noteq> []" "line_key rt (name it) = k"
    "raw_sources it = filter (\<lambda>l. key_of rt l = Some k) seen"
    "\<exists>l q u. find (\<lambda>l. key_of rt l = Some k) seen = Some l
       \<and> parse_quantity rt l = Inr (q, u, name it)"
proof -
  have d: "distinct (map fst merged)"
    using inv by (simp add: merged_inv_def)
  then have mo: "map_of merged k = Some it"
    using kv by simp
  have "k \<in> fst ` set merged"
    using kv by force
  then show "k \<noteq> []"
    using inv by (simp add: merged_inv_def)
  from inv mo show rs: "raw_sources it = filter (\<lambda>l. key_of rt l = Some k) seen"
    by (simp add: merged_inv_def)
  from inv mo obtain l where l: "find (\<lambda>l. key_of rt l = Some k) seen = Some l"
    "name_of rt l = Some (name it)"
    unfolding merged_inv_def by blast
  from l(2) obtain q u where p: "parse_quantity rt l = Inr (q, u, name it)"
    by (auto simp: name_of_def split: sum.splits)
  from l(1) have "key_of rt l = Some k"
    by (auto simp: find_Some_iff)
  with p show "line_key rt (name it) = k"
    by (simp add: key_of_def)
  from l(1) p show "\<exists>l q u. find (\<lambda>l. key_of rt l = Some k) seen = Some l
       \<and> parse_quantity rt l = Inr (q, u, name it)"
    by blast
qed


lemma combine_keys:
  assumes "combine_ingredients rt rs = Inr out"
  shows "(\<lambda>x. line_key rt (name x)) ` set out =
      {k. k \<noteq> [] \<and> Some k \<in> key_of rt ` set (all_lines rs)}"
    and "distinct (map (\<lambda>x. line_key rt (name x)) out)"
    and "length out = card {k. k \<noteq> [] \<and> Some k \<in> key_of rt ` set (all_lines rs)}"
proof -
  from assms obtain merged where inv: "merged_inv rt (all_lines rs) merged"
    and so: "out = sort_key (\<lambda>x. lower rt (name x)) (map snd merged)"
    by (rule combine_merged)
  have d: "distinct (map fst merged)"
    and ks: "fst ` set merged = {k. k \<noteq> [] \<and> Some k \<in> key_of rt ` set (all_lines rs)}"
    using inv by (auto simp: merged_inv_def)
  have kf: "map (\<lambda>x. line_key rt (name x)) (map snd merged) = map fst merged"
    using merged_inv_entry(2) [OF inv] by auto
  have "mset out = mset (map snd merged)"
    by (simp add: so)
  then have "mset (map (\<lambda>x. line_key rt (name x)) out) =
      mset (map (\<lambda>x. line_key rt (name x)) (map snd merged))"
    by (metis mset_map)
  then have "mset (map (\<lambda>x. line_key rt (name x)) out) = mset (map fst merged)"
    by (simp only: kf)
  then show dist: "distinct (map (\<lambda>x. line_key rt (name x)) out)"
    and "(\<lambda>x. line_key rt (name x)) ` set out =
      {k. k \<noteq> [] \<and> Some k \<in> key_of rt ` set (all_lines rs)}"
    using d ks by (metis mset_eq_imp_distinct_iff, metis list.set_map mset_eq_setD)
  then show "length out = card {k. k \<noteq> [] \<and> Some k \<in> key_of rt ` set (all_lines rs)}"
    by (metis distinct_card length_map list.set_map)
qed

lemma rb_sum3: "fadd (Fin 1) (Fin 2) = Fin 3" "fadd (Fin 2) (Fin 1) = Fin 3"
  by (simp_all add: rb_3)

lemma parse_cup_Flour:
  "parse_quantity rt (asc ''1 cup Flour'') = Inr (Fin 1, asc ''cup'', asc ''Flour'')"
  by (simp add: parse_defs rb_1)

lemma parse_cups_flour:
  "parse_quantity rt (asc ''2 cups flour'') = Inr (Fin 2, asc ''cup'', asc ''flour'')"
  by (simp add: parse_defs rb_2)

lemma key_Flour: "line_key rt (asc ''Flour'') = asc ''flour''"
  by (simp add: key_defs)

lemma asc_ne_Flour: "asc ''Flour'' \<noteq> []" "asc ''flour'' \<noteq> []" "asc ''cup'' \<noteq> []"
  by (simp_all add: asc_def)

lemma merge_same_unit:
  "u \<noteq> [] \<Longrightarrow> unit ex = u \<Longrightarrow> merge_existing ex q u = Inr (ex\<lparr>qty := fadd (qty ex) q\<rparr>)"
  by (simp add: merge_existing_def try_convert_def)

lemma combine_Flour_first:
  "combine_ingredients rt [\<lparr>ingredients = Some [asc ''1 cup Flour'', asc ''2 cups flour'']\<rparr>] =
     Inr [\<lparr>name = asc ''Flour'', qty = Fin 3, unit = asc ''cup'',
           raw_sources = [asc ''1 cup Flour'', asc ''2 cups flour'']\<rparr>]"
proof -
  let ?i1 = "\<lparr>name = asc ''Flour'', qty = Fin 1, unit = asc ''cup'',
    raw_sources = [asc ''1 cup Flour'']\<rparr>"
  have 1: "add_line rt [] (asc ''1 cup Flour'') = Inr [(asc ''flour'', ?i1)]"
    using add_line_new [OF parse_cup_Flour, of rt "[]"] by (simp add: key_Flour asc_ne_Flour)
  have m: "merge_existing ?i1 (Fin 2) (asc ''cup'') = Inr (?i1\<lparr>qty := fadd (qty ?i1) (Fin 2)\<rparr>)"
    by (rule merge_same_unit) (simp_all add: asc_ne_Flour)
  have 2: "add_line rt [(asc ''flour'', ?i1)] (asc ''2 cups flour'') =
      Inr [(asc ''flour'', \<lparr>name = asc ''Flour'', qty = Fin 3, unit = asc ''cup'',
        raw_sources = [asc ''1 cup Flour'', asc ''2 cups flour'']\<rparr>)]"
    using add_line_existing [OF parse_cups_flour _ _ m, of rt "[(asc ''flour'', ?i1)]"]
    by (simp add: key_flour asc_ne_Flour rb_sum3 del: fadd.simps)
  show ?thesis
    by (simp add: combine_ingredients_def 1 2)
qed

lemma combine_flour_first:
  "combine_ingredients rt [\<lparr>ingredients = Some [asc ''2 cups flour'', asc ''1 cup Flour'']\<rparr>] =
     Inr [\<lparr>name = asc ''flour'', qty = Fin 3, unit = asc ''cup'',
           raw_sources = [asc ''2 cups flour'', asc ''1 cup Flour'']\<rparr>]"
proof -
  let ?i1 = "\<lparr>name = asc ''flour'', qty = Fin 2, unit = asc ''cup'',
    raw_sources = [asc ''2 cups flour'']\<rparr>"
  have 1: "add_line rt [] (asc ''2 cups flour'') = Inr [(asc ''flour'', ?i1)]"
    using add_line_new [OF parse_cups_flour, of rt "[]"] by (simp add: key_flour asc_ne_Flour)
  have m: "merge_existing ?i1 (Fin 1) (asc ''cup'') = Inr (?i1\<lparr>qty := fadd (qty ?i1) (Fin 1)\<rparr>)"
    by (rule merge_same_unit) (simp_all add: asc_ne_Flour)
  have 2: "add_line rt [(asc ''flour'', ?i1)] (asc ''1 cup Flour'') =
      Inr [(asc ''flour'', \<lparr>name = asc ''flour'', qty = Fin 3, unit = asc ''cup'',
        raw_sources = [asc ''2 cups flour'', asc ''1 cup Flour'']\<rparr>)]"
    using add_line_existing [OF parse_cup_Flour _ _ m, of rt "[(asc ''flour'', ?i1)]"]
    by (simp add: key_Flour asc_ne_Flour rb_sum3 del: fadd.simps)
  show ?thesis
    by (simp add: combine_ingredients_def 1 2)
qed

lemma key_of_flour_lines:
  "key_of rt (asc ''1 cup flour'') = Some (asc ''flour'')"
  "key_of rt (asc ''200 g flour'') = Some (asc ''flour'')"
  by (simp_all add: key_of_def parse_cup_flour parse_g_flour key_flour)

text \<open>
  C2, as it is stated, fails: a line is skipped when its grouping key is empty
  (\<^verbatim>\<open>if not key: continue\<close>). The line \<^verbatim>\<open>2\<close> parses to the amount 2 and an empty name,
  and the output has no item at all.
\<close>

theorem combine_skips_empty_key:
  "combine_ingredients ascii_runtime [\<lparr>ingredients = Some [asc ''2'']\<rparr>] = Inr []"
  by (rule combine_two)

text \<open>
  C2, amended. When no line raises, the aggregator returns, and every line of every recipe
  whose grouping key is not empty is among the sources of the item of that key; the sources
  of an item are the lines of its key in the order the loops meet them; a line whose key is
  empty is in no item.
\<close>

theorem combine_keeps_keyed_lines:
  assumes "\<forall>l \<in> set (all_lines recipes). \<forall>e. parse_quantity rt l \<noteq> Inl e"
  shows "\<exists>out. combine_ingredients rt recipes = Inr out
    \<and> (\<forall>l \<in> set (all_lines recipes). \<forall>k. key_of rt l = Some k \<and> k \<noteq> [] \<longrightarrow>
          (\<exists>it \<in> set out. line_key rt (name it) = k \<and> l \<in> set (raw_sources it)))
    \<and> (\<forall>it \<in> set out.
          raw_sources it =
            filter (\<lambda>l. key_of rt l = Some (line_key rt (name it))) (all_lines recipes))
    \<and> (\<forall>l \<in> set (all_lines recipes). key_of rt l = Some [] \<longrightarrow>
          (\<forall>it \<in> set out. l \<notin> set (raw_sources it)))"
proof -
  obtain out where out: "combine_ingredients rt recipes = Inr out"
    using assms combine_returns by blast
  then obtain merged where inv: "merged_inv rt (all_lines recipes) merged"
    and so: "out = sort_key (\<lambda>x. lower rt (name x)) (map snd merged)"
    by (rule combine_merged)
  have mem: "it \<in> set out \<longleftrightarrow> (\<exists>k. (k, it) \<in> set merged)" for it
    by (force simp: so)
  have src: "raw_sources it =
      filter (\<lambda>l. key_of rt l = Some (line_key rt (name it))) (all_lines recipes)"
    and ne: "line_key rt (name it) \<noteq> []" if "it \<in> set out" for it
    using that merged_inv_entry [OF inv] unfolding mem by auto
  have 1: "\<exists>it \<in> set out. line_key rt (name it) = k \<and> l \<in> set (raw_sources it)"
    if l: "l \<in> set (all_lines recipes)" and k: "key_of rt l = Some k" "k \<noteq> []" for l k
  proof -
    have "Some k \<in> key_of rt ` set (all_lines recipes)"
      using l k(1) by (metis imageI)
    with k(2) inv have "k \<in> fst ` set merged"
      by (simp add: merged_inv_def)
    then obtain it where it: "(k, it) \<in> set merged"
      by auto
    then have "it \<in> set out"
      unfolding mem by blast
    moreover from merged_inv_entry [OF inv it] l k(1)
    have "line_key rt (name it) = k \<and> l \<in> set (raw_sources it)"
      by simp
    ultimately show ?thesis
      by blast
  qed
  have 3: "l \<notin> set (raw_sources it)" if "key_of rt l = Some []" "it \<in> set out" for l it
    using that src [of it] ne [of it] by auto
  show ?thesis
    using out 1 src 3 by blast
qed

theorem combine_keeps_keyed_lines_witness:
  "parse_quantity ascii_runtime (asc ''1 cup flour'') = Inr (Fin 1, asc ''cup'', asc ''flour'')
   \<and> parse_quantity ascii_runtime (asc ''200 g flour'') = Inr (Fin 200, asc ''g'', asc ''flour'')
   \<and> combine_ingredients ascii_runtime
        [\<lparr>ingredients = Some [asc ''1 cup flour'', asc ''200 g flour'']\<rparr>] =
      Inr [\<lparr>name = asc ''flour'', qty = Fin 201, unit = asc ''cup+g'',
            raw_sources = [asc ''1 cup flour'', asc ''200 g flour'']\<rparr>]
   \<and> asc ''200 g flour'' \<in> set (raw_sources \<lparr>name = asc ''flour'', qty = Fin 201,
        unit = asc ''cup+g'', raw_sources = [asc ''1 cup flour'', asc ''200 g flour'']\<rparr>)"
proof -
  have h: "\<forall>l \<in> set (all_lines [\<lparr>ingredients = Some [asc ''1 cup flour'', asc ''200 g flour'']\<rparr>]).
      \<forall>e. parse_quantity ascii_runtime l \<noteq> Inl e"
    by (simp add: all_lines_def parse_cup_flour parse_g_flour)
  from combine_keeps_keyed_lines [OF h] show ?thesis
    by (simp add: combine_flour parse_cup_flour parse_g_flour)
qed

text \<open>
  C9. The name of every item of the output is the name parsed from the first line, in the
  order of the loops, that has the grouping key of the item; and a line that is merged
  leaves the name of every item already in \<^verbatim>\<open>merged\<close> as it is.
\<close>

theorem name_is_first_occurrence:
  "(combine_ingredients rt recipes = Inr out \<and> it \<in> set out \<longrightarrow>
      (\<exists>l q u. find (\<lambda>l. key_of rt l = Some (line_key rt (name it))) (all_lines recipes) = Some l
         \<and> parse_quantity rt l = Inr (q, u, name it)))
   \<and> (map_of merged k = Some ex \<and> add_line rt merged line = Inr merged' \<longrightarrow>
        (\<exists>ex'. map_of merged' k = Some ex' \<and> name ex' = name ex))"
proof (intro conjI impI)
  assume h: "combine_ingredients rt recipes = Inr out \<and> it \<in> set out"
  then obtain merged where inv: "merged_inv rt (all_lines recipes) merged"
    and so: "out = sort_key (\<lambda>x. lower rt (name x)) (map snd merged)"
    using combine_merged by blast
  from h so obtain k where "(k, it) \<in> set merged"
    by force
  from merged_inv_entry [OF inv this]
  show "\<exists>l q u. find (\<lambda>l. key_of rt l = Some (line_key rt (name it))) (all_lines recipes) = Some l
         \<and> parse_quantity rt l = Inr (q, u, name it)"
    by simp
next
  assume h: "map_of merged k = Some ex \<and> add_line rt merged line = Inr merged'"
  then obtain q u nm where p: "parse_quantity rt line = Inr (q, u, nm)"
    using add_line_error [of rt merged line]
    by (cases "parse_quantity rt line") auto
  from add_line_result [OF p, of merged] h obtain v
    where m: "merged' = (if line_key rt nm = [] then merged else AList.update (line_key rt nm) v merged)"
      and nv: "name v = (case map_of merged (line_key rt nm) of Some ex \<Rightarrow> name ex | None \<Rightarrow> nm)"
    by auto
  show "\<exists>ex'. map_of merged' k = Some ex' \<and> name ex' = name ex"
  proof (cases "line_key rt nm = [] \<or> k \<noteq> line_key rt nm")
    case True
    then show ?thesis
      using h by (auto simp: m update_conv')
  next
    case False
    then show ?thesis
      using h nv by (auto simp: m update_conv')
  qed
qed

theorem name_is_first_occurrence_witness:
  "combine_ingredients ascii_runtime
        [\<lparr>ingredients = Some [asc ''1 cup Flour'', asc ''2 cups flour'']\<rparr>] =
      Inr [\<lparr>name = asc ''Flour'', qty = Fin 3, unit = asc ''cup'',
            raw_sources = [asc ''1 cup Flour'', asc ''2 cups flour'']\<rparr>]
   \<and> parse_quantity ascii_runtime (asc ''1 cup Flour'') = Inr (Fin 1, asc ''cup'', asc ''Flour'')
   \<and> map_of [(asc ''flour'', \<lparr>name = asc ''Flour'', qty = Fin 1, unit = asc ''cup'',
        raw_sources = [asc ''1 cup Flour'']\<rparr>)] (asc ''flour'') =
      Some \<lparr>name = asc ''Flour'', qty = Fin 1, unit = asc ''cup'',
        raw_sources = [asc ''1 cup Flour'']\<rparr>
   \<and> add_line ascii_runtime
        [(asc ''flour'', \<lparr>name = asc ''Flour'', qty = Fin 1, unit = asc ''cup'',
          raw_sources = [asc ''1 cup Flour'']\<rparr>)] (asc ''2 cups flour'') =
      Inr [(asc ''flour'', \<lparr>name = asc ''Flour'', qty = Fin 3, unit = asc ''cup'',
        raw_sources = [asc ''1 cup Flour'', asc ''2 cups flour'']\<rparr>)]"
proof -
  let ?i1 = "\<lparr>name = asc ''Flour'', qty = Fin 1, unit = asc ''cup'',
    raw_sources = [asc ''1 cup Flour'']\<rparr>"
  have m: "merge_existing ?i1 (Fin 2) (asc ''cup'') = Inr (?i1\<lparr>qty := fadd (qty ?i1) (Fin 2)\<rparr>)"
    by (rule merge_same_unit) (simp_all add: asc_ne_Flour)
  have a: "add_line ascii_runtime [(asc ''flour'', ?i1)] (asc ''2 cups flour'') =
      Inr [(asc ''flour'', \<lparr>name = asc ''Flour'', qty = Fin 3, unit = asc ''cup'',
        raw_sources = [asc ''1 cup Flour'', asc ''2 cups flour'']\<rparr>)]"
    using add_line_existing [OF parse_cups_flour _ _ m, of ascii_runtime "[(asc ''flour'', ?i1)]"]
    by (simp add: key_flour asc_ne_Flour rb_sum3 del: fadd.simps)
  from name_is_first_occurrence [of ascii_runtime
      "[\<lparr>ingredients = Some [asc ''1 cup Flour'', asc ''2 cups flour'']\<rparr>]"
      "[\<lparr>name = asc ''Flour'', qty = Fin 3, unit = asc ''cup'',
            raw_sources = [asc ''1 cup Flour'', asc ''2 cups flour'']\<rparr>]"
      "\<lparr>name = asc ''Flour'', qty = Fin 3, unit = asc ''cup'',
            raw_sources = [asc ''1 cup Flour'', asc ''2 cups flour'']\<rparr>"
      "[(asc ''flour'', ?i1)]" "asc ''flour''" ?i1 "asc ''2 cups flour''"]
  show ?thesis
    by (simp add: combine_Flour_first parse_cup_Flour a)
qed

text \<open>
  C7, as it is stated, fails in its last part: the items of the output are not the same
  for two orders of the same lines. The name of an item is the one of the first line of its
  key, and its sources follow the order of the lines.
\<close>

theorem combine_items_depend_on_order:
  "combine_ingredients ascii_runtime
      [\<lparr>ingredients = Some [asc ''1 cup Flour'', asc ''2 cups flour'']\<rparr>] =
     Inr [\<lparr>name = asc ''Flour'', qty = Fin 3, unit = asc ''cup'',
           raw_sources = [asc ''1 cup Flour'', asc ''2 cups flour'']\<rparr>]
   \<and> combine_ingredients ascii_runtime
      [\<lparr>ingredients = Some [asc ''2 cups flour'', asc ''1 cup Flour'']\<rparr>] =
     Inr [\<lparr>name = asc ''flour'', qty = Fin 3, unit = asc ''cup'',
           raw_sources = [asc ''2 cups flour'', asc ''1 cup Flour'']\<rparr>]"
  by (simp add: combine_Flour_first combine_flour_first)

text \<open>
  C7, amended. The output is sorted in ascending order of the lowercased names and has
  one item for each grouping key; for any permutation of the same lines the aggregator
  returns again, with the same set of grouping keys and the same number of items (the
  name, quantity, unit and sources of an item may differ with the order).
\<close>

theorem combine_sorted_and_keys:
  "(combine_ingredients rt recipes = Inr out \<longrightarrow>
      sorted (map (\<lambda>x. lower rt (name x)) out)
      \<and> distinct (map (\<lambda>x. line_key rt (name x)) out))
   \<and> (combine_ingredients rt recipes = Inr out
        \<and> mset (all_lines recipes') = mset (all_lines recipes) \<longrightarrow>
      (\<exists>out'. combine_ingredients rt recipes' = Inr out'
         \<and> (\<lambda>x. line_key rt (name x)) ` set out' = (\<lambda>x. line_key rt (name x)) ` set out
         \<and> length out' = length out))"
proof (intro conjI impI)
  assume "combine_ingredients rt recipes = Inr out"
  then show "sorted (map (\<lambda>x. lower rt (name x)) out)"
    by (auto simp: combine_ingredients_def split: sum.splits)
next
  assume "combine_ingredients rt recipes = Inr out"
  then show "distinct (map (\<lambda>x. line_key rt (name x)) out)"
    by (rule combine_keys)
next
  assume h: "combine_ingredients rt recipes = Inr out
    \<and> mset (all_lines recipes') = mset (all_lines recipes)"
  then have s: "set (all_lines recipes') = set (all_lines recipes)"
    by (metis mset_eq_setD)
  have "\<forall>l \<in> set (all_lines recipes). \<forall>e. parse_quantity rt l \<noteq> Inl e"
    using h combine_returns by blast
  then obtain out' where out': "combine_ingredients rt recipes' = Inr out'"
    using combine_returns [of rt recipes'] s by auto
  from combine_keys(1,3) [OF out'] combine_keys(1,3) [of rt recipes out] h s out'
  show "\<exists>out'. combine_ingredients rt recipes' = Inr out'
         \<and> (\<lambda>x. line_key rt (name x)) ` set out' = (\<lambda>x. line_key rt (name x)) ` set out
         \<and> length out' = length out"
    by simp
qed

theorem combine_sorted_and_keys_witness:
  "combine_ingredients ascii_runtime
      [\<lparr>ingredients = Some [asc ''1 cup Flour'', asc ''2 cups flour'']\<rparr>] =
     Inr [\<lparr>name = asc ''Flour'', qty = Fin 3, unit = asc ''cup'',
           raw_sources = [asc ''1 cup Flour'', asc ''2 cups flour'']\<rparr>]
   \<and> mset (all_lines [\<lparr>ingredients = Some [asc ''2 cups flour'', asc ''1 cup Flour'']\<rparr>]) =
      mset (all_lines [\<lparr>ingredients = Some [asc ''1 cup Flour'', asc ''2 cups flour'']\<rparr>])
   \<and> combine_ingredients ascii_runtime
      [\<lparr>ingredients = Some [asc ''2 cups flour'', asc ''1 cup Flour'']\<rparr>] =
     Inr [\<lparr>name = asc ''flour'', qty = Fin 3, unit = asc ''cup'',
           raw_sources = [asc ''2 cups flour'', asc ''1 cup Flour'']\<rparr>]
   \<and> line_key ascii_runtime (asc ''flour'') = line_key ascii_runtime (asc ''Flour'')"
  using combine_sorted_and_keys [of ascii_runtime
      "[\<lparr>ingredients = Some [asc ''1 cup Flour'', asc ''2 cups flour'']\<rparr>]"
      "[\<lparr>name = asc ''Flour'', qty = Fin 3, unit = asc ''cup'',
           raw_sources = [asc ''1 cup Flour'', asc ''2 cups flour'']\<rparr>]"
      "[\<lparr>ingredients = Some [asc ''2 cups flour'', asc ''1 cup Flour'']\<rparr>]"]
  by (simp add: combine_Flour_first combine_flour_first all_lines_def key_flour key_Flour
      add.commute)

end
